theory Spec2Isabelle
  imports Complex_Main
begin

section \<open>Constants and data model of App.tsx\<close>

text \<open>
  The simulation core of the Sky Rebel component. JavaScript numbers are modelled as
  \<^typ>\<open>real\<close> (rounding of IEEE doubles is not modelled); the score and the best score only
  ever hold natural numbers and are modelled as \<^typ>\<open>nat\<close>.
\<close>

definition GRAVITY :: real where "GRAVITY = 4 / 10"
definition JUMP_FORCE :: real where "JUMP_FORCE = - 8"
definition GAME_SPEED_BASE :: real where "GAME_SPEED_BASE = 5"
definition PLAYER_SIZE :: real where "PLAYER_SIZE = 40"
definition OBSTACLE_WIDTH :: real where "OBSTACLE_WIDTH = 60"
definition POWERUP_SIZE :: real where "POWERUP_SIZE = 30"

datatype GameState = START | PLAYING | PAUSED | PHOENIX_REVIVE | GAME_OVER

datatype ObstacleType = DRONE | LASER | STORM | WIRE

datatype PowerUpType = FIRE_WINGS | WIND_GLIDE | SHIELD | PHOENIX

text \<open>Identifiers are either \<open>Math.random().toString()\<close> or the literal \<open>'BOSS_1'\<close>.\<close>

datatype ident = RandomId real | BOSS_1

record Entity =
  ident :: ident
  pos_x :: real
  pos_y :: real
  width :: real
  height :: real

record Obstacle = Entity +
  otype :: ObstacleType
  speed :: real

record PowerUp = Entity +
  ptype :: PowerUpType

record Boss = Entity +
  health :: real
  maxHealth :: real
  active :: bool
  phase :: nat

record Projectile = Entity +
  vx :: real
  vy :: real

record Particle =
  part_id :: ident
  part_x :: real
  part_y :: real
  part_vx :: real
  part_vy :: real
  life :: real
  color :: string
  psize :: real

record Challenge =
  ch_id :: string
  description :: string
  target :: real
  progress :: real
  completed :: bool
  rewardSkin :: string

text \<open>
  The two \<open>setTimeout\<close> callbacks of \<open>handleDeath\<close>: the outer one (1000 ms) returns the
  life state to PLAYING and arms the inner one (5000 ms), which clears phoenix mode.
\<close>

datatype TimerAction = ReturnToPlaying | ClearPhoenixMode

type_synonym timer = "nat \<times> TimerAction"

text \<open>
  All \<open>useState\<close> cells and the \<open>lastTimeRef\<close> ref of the component, plus what the
  component hands to its environment: the pending \<open>setTimeout\<close> callbacks, the number of
  \<open>Math.random()\<close> calls consumed so far, the number of \<open>confetti\<close> calls, and the
  \<open>dimensions.height\<close> seen by the registered \<open>keydown\<close> listener. That listener is
  registered by an effect with dependencies \<open>[gameState]\<close>, so it keeps the \<open>handleJump\<close>
  and \<open>startGame\<close> of the render in which the life state last changed.
\<close>

record game =
  gameState :: GameState
  score :: nat
  highScore :: nat
  view_width :: real
  view_height :: real
  playerY :: real
  playerVelocity :: real
  isPhoenixMode :: bool
  activePowerUps :: "PowerUpType \<rightharpoonup> real"
  obstacles :: "Obstacle list"
  powerUps :: "PowerUp list"
  particles :: "Particle list"
  backgroundOffset :: real
  boss :: "Boss option"
  projectiles :: "Projectile list"
  currentSkin :: string
  unlockedSkins :: "string list"
  challenges :: "Challenge list"
  lastTimeRef :: "real option"
  timers :: "timer list"
  draws :: nat
  confettiCalls :: nat
  keydownHeight :: real

text \<open>The source of randomness: the k-th call of \<open>Math.random()\<close> returns \<open>rnd k\<close>.\<close>

type_synonym rng = "nat \<Rightarrow> real"

definition random :: "rng \<Rightarrow> game \<Rightarrow> real" where
  "random rnd s = rnd (draws s)"

definition consume :: "game \<Rightarrow> game" where
  "consume s = s\<lparr>draws := Suc (draws s)\<rparr>"

text \<open>
  JavaScript truthiness of \<open>activePowerUps[k]\<close>: a missing key reads \<open>undefined\<close> (falsy),
  a stored number is truthy unless it is zero.
\<close>

definition truthy :: "real option \<Rightarrow> bool" where
  "truthy v = (case v of None \<Rightarrow> False | Some d \<Rightarrow> d \<noteq> 0)"

section \<open>Effects and death resolution\<close>

definition mkParticle :: "rng \<Rightarrow> nat \<Rightarrow> real \<Rightarrow> real \<Rightarrow> string \<Rightarrow> Particle" where
  "mkParticle rnd k x0 y0 col =
     \<lparr>part_id = RandomId (rnd k), part_x = x0, part_y = y0,
      part_vx = (rnd (k + 1) - 1 / 2) * 10, part_vy = (rnd (k + 2) - 1 / 2) * 10,
      life = 1, color = col, psize = rnd (k + 3) * 5 + 2\<rparr>"

text \<open>
  \<open>createExplosion\<close> draws the random numbers of its 15 particles when it is called and
  appends the particles through \<open>setParticles(prev => [...prev, ...newParticles])\<close>.
\<close>

definition createExplosion :: "rng \<Rightarrow> real \<Rightarrow> real \<Rightarrow> string \<Rightarrow> game \<Rightarrow> game" where
  "createExplosion rnd x0 y0 col s =
     s\<lparr>particles := particles s @ map (\<lambda>i. mkParticle rnd (draws s + 4 * i) x0 y0 col) [0..<15],
       draws := draws s + 60\<rparr>"

text \<open>
  \<open>handleDeath\<close> reads \<open>activePowerUps\<close>, \<open>isPhoenixMode\<close>, \<open>score\<close>, \<open>highScore\<close> and
  \<open>playerY\<close> from the render it was created in (the snapshot \<open>c\<close>) and writes through state
  setters (the pending state \<open>s\<close>).
\<close>

definition handleDeath :: "rng \<Rightarrow> game \<Rightarrow> game \<Rightarrow> game" where
  "handleDeath rnd c s =
     (if truthy (activePowerUps c SHIELD) then
        createExplosion rnd 50 (playerY c) ''#3b82f6''
          (s\<lparr>activePowerUps := (activePowerUps s)(SHIELD := None)\<rparr>)
      else if truthy (activePowerUps c PHOENIX) \<or> \<not> isPhoenixMode c then
        (createExplosion rnd 50 (playerY c) ''#ef4444''
          (s\<lparr>gameState := PHOENIX_REVIVE, isPhoenixMode := True\<rparr>))
          \<lparr>timers := timers s @ [(1000, ReturnToPlaying)]\<rparr>
      else
        s\<lparr>gameState := GAME_OVER,
          highScore := (if score c > highScore c then score c else highScore s)\<rparr>)"

fun runTimer :: "TimerAction \<Rightarrow> game \<Rightarrow> game" where
  "runTimer ReturnToPlaying s =
     s\<lparr>gameState := PLAYING, timers := timers s @ [(5000, ClearPhoenixMode)]\<rparr>"
| "runTimer ClearPhoenixMode s = s\<lparr>isPhoenixMode := False\<rparr>"

text \<open>
  \<open>startGame\<close> reads \<open>dimensions.height\<close> from the render it was created in (the snapshot
  \<open>c\<close>); every other write is a constant.
\<close>

definition startGame :: "game \<Rightarrow> game \<Rightarrow> game" where
  "startGame c s =
     s\<lparr>score := 0, playerY := view_height c / 2, playerVelocity := 0,
       obstacles := [], powerUps := [], particles := [], projectiles := [],
       activePowerUps := Map.empty, isPhoenixMode := False, boss := None,
       gameState := PLAYING\<rparr>"

section \<open>Spawning\<close>

text \<open>
  \<open>types[Math.floor(Math.random() * types.length)]\<close>. \<open>Math.random()\<close> returns a value in
  \<open>[0, 1)\<close>, so the index is below 4; for a draw outside that range (where JavaScript would
  read \<open>undefined\<close>) the model takes the last kind.
\<close>

definition pickIndex :: "real \<Rightarrow> nat" where
  "pickIndex r = nat \<lfloor>r * 4\<rfloor>"

definition pickObstacleType :: "real \<Rightarrow> ObstacleType" where
  "pickObstacleType r =
     (if pickIndex r < 4 then [DRONE, LASER, STORM, WIRE] ! pickIndex r else WIRE)"

definition pickPowerUpType :: "real \<Rightarrow> PowerUpType" where
  "pickPowerUpType r =
     (if pickIndex r < 4 then [FIRE_WINGS, WIND_GLIDE, SHIELD, PHOENIX] ! pickIndex r
      else PHOENIX)"

text \<open>
  \<open>spawnObstacle\<close> and \<open>spawnPowerUp\<close> build the new entity at once, drawing three random
  numbers, and queue \<open>prev => [...prev, newEntity]\<close>; the model returns the entity together
  with the state in which the draws are consumed, and the queued append is applied where the
  render applies it (see \<open>update\<close>).
\<close>

definition spawnObstacle :: "rng \<Rightarrow> game \<Rightarrow> game \<Rightarrow> Obstacle \<times> game" where
  "spawnObstacle rnd c s =
     (let ty = pickObstacleType (random rnd s);
          s1 = consume s;
          i = RandomId (random rnd s1);
          s2 = consume s1;
          y0 = random rnd s2 * (view_height c - 100) + 50;
          s3 = consume s2;
          newObstacle = \<lparr>ident = i, pos_x = view_width c + 100, pos_y = y0,
                         width = OBSTACLE_WIDTH,
                         height = (if ty = LASER then 200 else 60),
                         otype = ty, speed = GAME_SPEED_BASE + real (score c) / 500\<rparr>
      in (newObstacle, s3))"

definition spawnPowerUp :: "rng \<Rightarrow> game \<Rightarrow> game \<Rightarrow> PowerUp \<times> game" where
  "spawnPowerUp rnd c s =
     (let ty = pickPowerUpType (random rnd s);
          s1 = consume s;
          i = RandomId (random rnd s1);
          s2 = consume s1;
          y0 = random rnd s2 * (view_height c - 100) + 50;
          s3 = consume s2;
          newPowerUp = \<lparr>ident = i, pos_x = view_width c + 100, pos_y = y0,
                        width = POWERUP_SIZE, height = POWERUP_SIZE, ptype = ty\<rparr>
      in (newPowerUp, s3))"

definition newBoss :: "game \<Rightarrow> Boss" where
  "newBoss c =
     \<lparr>ident = BOSS_1, pos_x = view_width c + 200, pos_y = view_height c / 2 - 100,
      width = 200, height = 200, health = 100, maxHealth = 100, active = True, phase = 1\<rparr>"

definition spawnBoss :: "game \<Rightarrow> game \<Rightarrow> game" where
  "spawnBoss c s = s\<lparr>boss := Some (newBoss c), obstacles := []\<rparr>"

text \<open>A queued \<open>prev => [...prev, e]\<close>, when there is one.\<close>

definition appendNew :: "'a list \<Rightarrow> 'a option \<Rightarrow> 'a list" where
  "appendNew xs e = (case e of None \<Rightarrow> xs | Some x \<Rightarrow> xs @ [x])"

section \<open>The per-frame update\<close>

definition currentSpeed :: "game \<Rightarrow> real" where
  "currentSpeed c =
     (if isPhoenixMode c then GAME_SPEED_BASE * 2 else GAME_SPEED_BASE) + real (score c) / 1000"

text \<open>The bounding-box test against the player, whose box starts at x = 50.\<close>

definition hitsPlayer :: "real \<Rightarrow> 'a Entity_scheme \<Rightarrow> bool" where
  "hitsPlayer py e =
     (50 < pos_x e + width e \<and> 50 + PLAYER_SIZE > pos_x e \<and>
      py < pos_y e + height e \<and> py + PLAYER_SIZE > pos_y e)"

definition hitsBoss :: "Projectile \<Rightarrow> Boss \<Rightarrow> bool" where
  "hitsBoss p b =
     (pos_x p < pos_x b + width b \<and> pos_x p + width p > pos_x b \<and>
      pos_y p < pos_y b + height b \<and> pos_y p + height p > pos_y b)"

text \<open>
  JavaScript's \<open>%\<close> on numbers: the remainder takes the sign of the dividend. (For a zero
  divisor JavaScript yields NaN, which \<^typ>\<open>real\<close> does not have.)
\<close>

definition js_rem :: "real \<Rightarrow> real \<Rightarrow> real" where
  "js_rem a b = a - b * of_int (if a / b < 0 then \<lceil>a / b\<rceil> else \<lfloor>a / b\<rfloor>)"

text \<open>
  What the body of \<open>update\<close> computes before it queues an append: the shot of the player
  (\<open>activePowerUps['FIRE_WINGS'] && Math.random() < 0.1\<close>, so the random number is drawn only
  when \<open>FIRE_WINGS\<close> is truthy) and the two spawn trials.
\<close>

definition bodyShooting :: "rng \<Rightarrow> game \<Rightarrow> game \<Rightarrow> Projectile option \<times> game" where
  "bodyShooting rnd c s =
     (if truthy (activePowerUps c FIRE_WINGS) then
        (let fires = (random rnd s < 1 / 10);
             s1 = consume s
         in if fires then
              (let i = RandomId (random rnd s1);
                   s2 = consume s1;
                   newProjectile = \<lparr>ident = i, pos_x = 50 + PLAYER_SIZE, pos_y = playerY c,
                                    width = 20, height = 10, vx = 15, vy = 0\<rparr>
               in (Some newProjectile, s2))
            else (None, s1))
      else (None, s))"

definition bodySpawnObstacle :: "rng \<Rightarrow> game \<Rightarrow> game \<Rightarrow> Obstacle option \<times> game" where
  "bodySpawnObstacle rnd c s =
     (let r1 = random rnd s;
          s1 = consume s
      in if r1 < 2 / 100 \<and> boss c = None
         then (Some (fst (spawnObstacle rnd c s1)), snd (spawnObstacle rnd c s1))
         else (None, s1))"

definition bodySpawnPowerUp :: "rng \<Rightarrow> game \<Rightarrow> game \<Rightarrow> PowerUp option \<times> game" where
  "bodySpawnPowerUp rnd c s =
     (let r2 = random rnd s;
          s1 = consume s
      in if r2 < 5 / 1000
         then (Some (fst (spawnPowerUp rnd c s1)), snd (spawnPowerUp rnd c s1))
         else (None, s1))"

definition stepVelocity :: "real \<Rightarrow> game \<Rightarrow> game" where
  "stepVelocity deltaTime s = s\<lparr>playerVelocity := playerVelocity s + GRAVITY * deltaTime\<rparr>"

text \<open>
  The updater of \<open>setPlayerY\<close>: \<open>y\<close> is the stored position, while \<open>playerVelocity\<close> and
  \<open>dimensions\<close> are the values of the render that created \<open>update\<close>.
\<close>

definition stepPlayerY :: "rng \<Rightarrow> game \<Rightarrow> real \<Rightarrow> game \<Rightarrow> game" where
  "stepPlayerY rnd c deltaTime s =
     (let nextY = playerY s + playerVelocity c * deltaTime
      in if nextY < 0 \<or> nextY > view_height c - PLAYER_SIZE then handleDeath rnd c s
         else s\<lparr>playerY := nextY\<rparr>)"

definition stepBackground :: "game \<Rightarrow> game \<Rightarrow> game" where
  "stepBackground c s =
     s\<lparr>backgroundOffset := js_rem (backgroundOffset s - currentSpeed c * (1 / 2)) (view_width c)\<rparr>"

definition stepParticles :: "game \<Rightarrow> game" where
  "stepParticles s =
     s\<lparr>particles :=
         filter (\<lambda>p. life p > 0)
           (map (\<lambda>p. p\<lparr>part_x := part_x p + part_vx p, part_y := part_y p + part_vy p,
                        life := life p - 2 / 100\<rparr>) (particles s))\<rparr>"

text \<open>The \<open>forEach\<close> over the moved obstacles (collision detection).\<close>

fun obstacleHits :: "rng \<Rightarrow> game \<Rightarrow> Obstacle list \<Rightarrow> game \<Rightarrow> game" where
  "obstacleHits rnd c [] s = s"
| "obstacleHits rnd c (ob # rest) s =
     obstacleHits rnd c rest
       (if hitsPlayer (playerY c) ob then
          (if truthy (activePowerUps c FIRE_WINGS) then
             createExplosion rnd (pos_x ob) (pos_y ob) ''#f97316'' s
           else if \<not> truthy (activePowerUps c WIND_GLIDE) then handleDeath rnd c s
           else s)
        else s)"

text \<open>
  The obstacle cell: the updater of the body (move, retire, collide, return the moved list),
  then the append queued by \<open>spawnObstacle\<close>.
\<close>

definition movedObstacles :: "game \<Rightarrow> real \<Rightarrow> Obstacle list \<Rightarrow> Obstacle list" where
  "movedObstacles c deltaTime prev =
     filter (\<lambda>ob. pos_x ob > - 100)
       (map (\<lambda>ob. ob\<lparr>pos_x := pos_x ob - currentSpeed c * deltaTime\<rparr>) prev)"

definition stepObstacles :: "rng \<Rightarrow> game \<Rightarrow> real \<Rightarrow> Obstacle option \<Rightarrow> game \<Rightarrow> game" where
  "stepObstacles rnd c deltaTime newObstacle s =
     (let next = movedObstacles c deltaTime (obstacles s)
      in (obstacleHits rnd c next s)\<lparr>obstacles := appendNew next newObstacle\<rparr>)"

fun powerUpHits :: "rng \<Rightarrow> game \<Rightarrow> PowerUp list \<Rightarrow> game \<Rightarrow> game" where
  "powerUpHits rnd c [] s = s"
| "powerUpHits rnd c (p # rest) s =
     powerUpHits rnd c rest
       (if hitsPlayer (playerY c) p then
          createExplosion rnd (pos_x p) (pos_y p) ''#fbbf24''
            (s\<lparr>activePowerUps := (activePowerUps s)(ptype p \<mapsto> 10000)\<rparr>)
        else s)"

definition movedPowerUps :: "game \<Rightarrow> real \<Rightarrow> PowerUp list \<Rightarrow> PowerUp list" where
  "movedPowerUps c deltaTime prev =
     filter (\<lambda>p. pos_x p > - 100)
       (map (\<lambda>p. p\<lparr>pos_x := pos_x p - currentSpeed c * deltaTime\<rparr>) prev)"

definition stepPowerUps :: "rng \<Rightarrow> game \<Rightarrow> real \<Rightarrow> PowerUp option \<Rightarrow> game \<Rightarrow> game" where
  "stepPowerUps rnd c deltaTime newPowerUp s =
     (let next = movedPowerUps c deltaTime (powerUps s)
      in (powerUpHits rnd c next s)\<lparr>powerUps := appendNew next newPowerUp\<rparr>)"

text \<open>
  The updater passed to \<open>setBoss\<close> in the boss logic; \<open>prev\<close> is the stored boss. The
  \<open>Math.random()\<close> of the shooting test is drawn before the boss-death test.
\<close>

definition bossUpdater :: "rng \<Rightarrow> game \<Rightarrow> real \<Rightarrow> Boss \<Rightarrow> game \<Rightarrow> game" where
  "bossUpdater rnd c time prev s =
     (let nextX = (if pos_x prev > view_width c - 250 then pos_x prev - 2 else pos_x prev);
          nextY = (if pos_x prev > view_width c - 250 then pos_y prev
                   else pos_y prev + sin (time / 500) * 3);
          shoots = (random rnd s < 5 / 100);
          s1 = consume s;
          s2 = (if shoots then
                  (let i = RandomId (random rnd s1);
                       s1' = consume s1;
                       bossLaser = \<lparr>ident = i, pos_x = pos_x prev,
                                    pos_y = pos_y prev + height prev / 2,
                                    width = 100, height = 10, otype = LASER, speed = 10\<rparr>
                   in s1'\<lparr>obstacles := obstacles s1' @ [bossLaser]\<rparr>)
                else s1)
      in if health prev \<le> 0 then
           (createExplosion rnd (pos_x prev + width prev / 2) (pos_y prev + height prev / 2)
              ''#ef4444'' s2)\<lparr>confettiCalls := Suc (confettiCalls s2), boss := None\<rparr>
         else s2\<lparr>boss := Some (prev\<lparr>pos_x := nextX, pos_y := nextY\<rparr>)\<rparr>)"

definition stepBoss :: "rng \<Rightarrow> game \<Rightarrow> real \<Rightarrow> game \<Rightarrow> game" where
  "stepBoss rnd c time s =
     (case boss c of
        None \<Rightarrow> s
      | Some b \<Rightarrow>
          (if active b then
             (case boss s of None \<Rightarrow> s | Some prev \<Rightarrow> bossUpdater rnd c time prev s)
           else s))"

text \<open>The \<open>forEach\<close> over the moved projectiles: a hit is marked by \<open>p.x = 10000\<close>.\<close>

fun projectileHits :: "rng \<Rightarrow> Boss \<Rightarrow> Projectile list \<Rightarrow> game \<Rightarrow> Projectile list \<times> game" where
  "projectileHits rnd b [] s = ([], s)"
| "projectileHits rnd b (p # ps) s =
     (if hitsBoss p b then
        (let s1 = s\<lparr>boss := map_option (\<lambda>b'. b'\<lparr>health := max 0 (health b' - 5)\<rparr>) (boss s)\<rparr>;
             s2 = createExplosion rnd (pos_x p) (pos_y p) ''#f97316'' s1;
             (ps', s3) = projectileHits rnd b ps s2
         in (p\<lparr>pos_x := 10000\<rparr> # ps', s3))
      else
        (let (ps', s3) = projectileHits rnd b ps s in (p # ps', s3)))"

text \<open>
  The projectile cell: the updater of the body (move, retire, hit the boss of the render),
  then the append queued by the shot.
\<close>

definition stepProjectiles :: "rng \<Rightarrow> game \<Rightarrow> Projectile option \<Rightarrow> game \<Rightarrow> game" where
  "stepProjectiles rnd c newProjectile s =
     (let next = filter (\<lambda>p. pos_x p < view_width c + 100)
                   (map (\<lambda>p. p\<lparr>pos_x := pos_x p + vx p\<rparr>) (projectiles s));
          (next', s') = (case boss c of
                           Some b \<Rightarrow> (if active b then projectileHits rnd b next s else (next, s))
                         | None \<Rightarrow> (next, s))
      in s'\<lparr>projectiles := appendNew (filter (\<lambda>p. pos_x p < view_width c) next') newProjectile\<rparr>)"

text \<open>
  \<open>[...new Set([...skins, c.rewardSkin])]\<close>: a JavaScript \<open>Set\<close> keeps the first occurrence
  of every element, in insertion order.
\<close>

definition newSet :: "'a list \<Rightarrow> 'a list" where
  "newSet xs = fold (\<lambda>e acc. if e \<in> set acc then acc else acc @ [e]) xs []"

text \<open>The body of \<open>prev.map(c => ...)\<close> inside \<open>setChallenges\<close>.\<close>

definition advanceChallenge :: "bool \<Rightarrow> nat \<Rightarrow> Challenge \<Rightarrow> Challenge" where
  "advanceChallenge phoenix nextScore ch =
     (if \<not> completed ch \<and> \<not> phoenix then
        (let nextProgress = real nextScore / 10
         in if nextProgress \<ge> target ch then ch\<lparr>progress := target ch, completed := True\<rparr>
            else ch\<lparr>progress := nextProgress\<rparr>)
      else ch)"

text \<open>The \<open>setUnlockedSkins\<close> calls made while mapping over the challenges, in order.\<close>

fun unlockRewards :: "bool \<Rightarrow> nat \<Rightarrow> Challenge list \<Rightarrow> string list \<Rightarrow> string list" where
  "unlockRewards phoenix nextScore [] skins = skins"
| "unlockRewards phoenix nextScore (ch # rest) skins =
     unlockRewards phoenix nextScore rest
       (if \<not> completed ch \<and> \<not> phoenix \<and> real nextScore / 10 \<ge> target ch
        then newSet (skins @ [rewardSkin ch]) else skins)"

text \<open>The updater of \<open>setScore\<close> with the setter calls it makes.\<close>

definition stepScore :: "game \<Rightarrow> game \<Rightarrow> game" where
  "stepScore c s =
     (let nextScore = score s + 1;
          s1 = (if nextScore mod 1000 = 0 \<and> boss c = None then spawnBoss c s else s);
          s2 = s1\<lparr>unlockedSkins :=
                    unlockRewards (isPhoenixMode c) nextScore (challenges s1) (unlockedSkins s1),
                  challenges := map (advanceChallenge (isPhoenixMode c) nextScore) (challenges s1)\<rparr>
      in s2\<lparr>score := nextScore\<rparr>)"

text \<open>
  \<open>update(time)\<close>. The argument \<open>c\<close> is the state of the render that created the callback;
  every closure variable is read from \<open>c\<close>. The body of \<open>update\<close> only queues updaters
  (drawing the random numbers of the shot and of the spawn trials on the way); React runs
  them during the next render, cell by cell in the order of the \<open>useState\<close> declarations, and
  a setter called by a running updater is appended to the queue of its cell. So every cell
  receives first the updates queued by the body, in the order of the body, and then the
  updates queued by updaters, in the order in which those updaters ran:
  \<^item> \<open>activePowerUps\<close>: the SHIELD removal of a death at the bounds, those of deaths at
    obstacles, then the pickups;
  \<^item> \<open>obstacles\<close>: move and collide, the spawned obstacle, then either the clearing by
    \<open>spawnBoss\<close> or the laser of the boss (the first needs no boss in \<open>c\<close>, the second one);
  \<^item> \<open>powerUps\<close>: move and collect, then the spawned power-up;
  \<^item> \<open>particles\<close>: ageing first, then the explosions of the bounds, the obstacles, the
    power-ups, the boss and the projectiles;
  \<^item> \<open>boss\<close>: the boss logic, then the health losses of the projectile hits; or the new boss;
  \<^item> \<open>projectiles\<close>: move and hit, then the shot;
  \<^item> \<open>gameState\<close>, \<open>highScore\<close>, \<open>isPhoenixMode\<close> and the timeouts: the death at the bounds,
    then those at obstacles; all other cells have one update.
  Random numbers are drawn by the body first and then by the updaters in the order they run:
  position, obstacles, power-ups, boss, projectiles. The steps below are arranged so that
  each of these orders is respected; the score updater, which draws nothing and whose
  queued writes come last in their cells, is the last step.
\<close>

definition update :: "rng \<Rightarrow> real \<Rightarrow> game \<Rightarrow> game" where
  "update rnd time c =
     (if gameState c \<noteq> PLAYING then c
      else case lastTimeRef c of
        None \<Rightarrow> c\<lparr>lastTimeRef := Some time\<rparr>
      | Some lastTime \<Rightarrow>
          (let deltaTime = (time - lastTime) / 16;
               newProjectile = fst (bodyShooting rnd c c);
               b1 = snd (bodyShooting rnd c c);
               newObstacle = fst (bodySpawnObstacle rnd c b1);
               b2 = snd (bodySpawnObstacle rnd c b1);
               newPowerUp = fst (bodySpawnPowerUp rnd c b2);
               b3 = snd (bodySpawnPowerUp rnd c b2);
               s1 = stepVelocity deltaTime b3;
               s2 = stepBackground c s1;
               s3 = stepParticles s2;
               s4 = stepPlayerY rnd c deltaTime s3;
               s5 = stepObstacles rnd c deltaTime newObstacle s4;
               s6 = stepPowerUps rnd c deltaTime newPowerUp s5;
               s7 = stepBoss rnd c time s6;
               s8 = stepProjectiles rnd c newProjectile s7;
               s9 = stepScore c s8
           in s9\<lparr>lastTimeRef := Some time\<rparr>))"

section \<open>Input handling and the life state machine\<close>

text \<open>\<open>handleJump\<close> reads \<open>gameState\<close> from the render it was created in.\<close>

definition handleJump :: "game \<Rightarrow> game \<Rightarrow> game" where
  "handleJump c s =
     (if gameState c = PLAYING then s\<lparr>playerVelocity := JUMP_FORCE\<rparr>
      else if gameState c = START then startGame c s
      else s)"

text \<open>
  The render whose \<open>handleJump\<close> the \<open>keydown\<close> listener holds, as far as \<open>handleJump\<close> and
  \<open>startGame\<close> read it: its life state is the current one, its height is the recorded one.
\<close>

definition keydownRender :: "game \<Rightarrow> game" where
  "keydownRender s = s\<lparr>view_height := keydownHeight s\<rparr>"

text \<open>
  Everything that can happen to the component: an animation frame, a pointer or touch press
  (\<open>onMouseDown\<close>, \<open>onTouchStart\<close>: the \<open>handleJump\<close> of the latest render), the Space or
  ArrowUp key (the \<open>handleJump\<close> held by the listener), the Escape key, the buttons (each
  exists only in the life states that render it, and calls the \<open>startGame\<close> of the latest
  render), a window resize and the expiry of a pending timeout.
\<close>

datatype event =
    Frame rng real
  | Jump
  | JumpKey
  | EscapeKey
  | PauseButton
  | ResumeButton
  | StartButton
  | MenuButton
  | SelectSkin string
  | Resize real real
  | Timeout nat

fun handle :: "event \<Rightarrow> game \<Rightarrow> game" where
  "handle (Frame rnd time) s = update rnd time s"
| "handle Jump s = handleJump s s"
| "handle JumpKey s = handleJump (keydownRender s) s"
| "handle EscapeKey s = (if gameState s = PLAYING then s\<lparr>gameState := PAUSED\<rparr> else s)"
| "handle PauseButton s = (if gameState s = PLAYING then s\<lparr>gameState := PAUSED\<rparr> else s)"
| "handle ResumeButton s = (if gameState s = PAUSED then s\<lparr>gameState := PLAYING\<rparr> else s)"
| "handle StartButton s =
     (if gameState s \<in> {START, GAME_OVER, PAUSED} then startGame s s else s)"
| "handle MenuButton s =
     (if gameState s \<in> {GAME_OVER, PAUSED} then s\<lparr>gameState := START\<rparr> else s)"
| "handle (SelectSkin skin) s =
     (if gameState s = START \<and> skin \<in> set (unlockedSkins s) then s\<lparr>currentSkin := skin\<rparr>
      else s)"
| "handle (Resize w h) s = s\<lparr>view_width := w, view_height := h\<rparr>"
| "handle (Timeout n) s =
     (if n < length (timers s) then
        runTimer (snd (timers s ! n)) (s\<lparr>timers := take n (timers s) @ drop (Suc n) (timers s)\<rparr>)
      else s)"

text \<open>
  One event and the render that follows it: when the life state has changed, the effect
  registers the \<open>keydown\<close> listener anew, with the \<open>handleJump\<close> of that render.
\<close>

definition step :: "event \<Rightarrow> game \<Rightarrow> game" where
  "step e s =
     (let s' = handle e s
      in if gameState s' \<noteq> gameState s then s'\<lparr>keydownHeight := view_height s'\<rparr> else s')"

definition run :: "event list \<Rightarrow> game \<Rightarrow> game" where
  "run evs s = fold step evs s"

text \<open>The state of the component at mount, for a window of the given size.\<close>

definition initial :: "real \<Rightarrow> real \<Rightarrow> game" where
  "initial w h =
     \<lparr>gameState = START, score = 0, highScore = 0, view_width = w, view_height = h,
      playerY = h / 2, playerVelocity = 0, isPhoenixMode = False, activePowerUps = Map.empty,
      obstacles = [], powerUps = [], particles = [], backgroundOffset = 0, boss = None,
      projectiles = [], currentSkin = ''DEFAULT'', unlockedSkins = [''DEFAULT''],
      challenges = [\<lparr>ch_id = ''CHALLENGE_1'', description = ''Survive 500m without dying'',
                     target = 500, progress = 0, completed = False, rewardSkin = ''ICE''\<rparr>],
      lastTimeRef = None, timers = [], draws = 0, confettiCalls = 0, keydownHeight = h\<rparr>"

section \<open>Notions used in the statements\<close>

text \<open>
  What one call of \<open>handleDeath\<close> does to the life state and to the modifiers, and when a
  frame calls it: when the candidate position is out of the bounds (in the \<open>setPlayerY\<close>
  updater), and when an obstacle overlaps the player after the move while neither
  \<open>FIRE_WINGS\<close> nor \<open>WIND_GLIDE\<close> is active (in the \<open>setObstacles\<close> updater).
\<close>

definition deathState :: "game \<Rightarrow> GameState \<Rightarrow> GameState" where
  "deathState c g =
     (if truthy (activePowerUps c SHIELD) then g
      else if truthy (activePowerUps c PHOENIX) \<or> \<not> isPhoenixMode c then PHOENIX_REVIVE
      else GAME_OVER)"

definition deathModifiers :: "game \<Rightarrow> (PowerUpType \<rightharpoonup> real) \<Rightarrow> (PowerUpType \<rightharpoonup> real)" where
  "deathModifiers c m = (if truthy (activePowerUps c SHIELD) then m(SHIELD := None) else m)"

definition outOfBounds :: "game \<Rightarrow> real \<Rightarrow> bool" where
  "outOfBounds c deltaTime =
     (playerY c + playerVelocity c * deltaTime < 0 \<or>
      playerY c + playerVelocity c * deltaTime > view_height c - PLAYER_SIZE)"

definition unguardedHit :: "game \<Rightarrow> Obstacle list \<Rightarrow> bool" where
  "unguardedHit c obs =
     (\<not> truthy (activePowerUps c FIRE_WINGS) \<and> \<not> truthy (activePowerUps c WIND_GLIDE) \<and>
      (\<exists>ob \<in> set obs. hitsPlayer (playerY c) ob))"

definition deathTriggered :: "game \<Rightarrow> real \<Rightarrow> bool" where
  "deathTriggered c deltaTime =
     (outOfBounds c deltaTime \<or> unguardedHit c (movedObstacles c deltaTime (obstacles c)))"

text \<open>The \<open>setActivePowerUps\<close> calls of the \<open>forEach\<close> over the moved power-ups, in order.\<close>

definition installPickups ::
  "game \<Rightarrow> PowerUp list \<Rightarrow> (PowerUpType \<rightharpoonup> real) \<Rightarrow> (PowerUpType \<rightharpoonup> real)" where
  "installPickups c ps m =
     fold (\<lambda>p m. if hitsPlayer (playerY c) p then m(ptype p \<mapsto> 10000) else m) ps m"

text \<open>The three outcomes of death resolution, as relations between the state before and after.\<close>

definition shieldConsumed :: "game \<Rightarrow> game \<Rightarrow> bool" where
  "shieldConsumed s s' =
     (activePowerUps s' = (activePowerUps s)(SHIELD := None) \<and>
      length (particles s') = length (particles s) + 15 \<and>
      gameState s' = gameState s \<and> isPhoenixMode s' = isPhoenixMode s \<and>
      highScore s' = highScore s \<and> timers s' = timers s)"

definition phoenixReviveEntered :: "game \<Rightarrow> game \<Rightarrow> bool" where
  "phoenixReviveEntered s s' =
     (gameState s' = PHOENIX_REVIVE \<and> isPhoenixMode s' \<and>
      timers s' = timers s @ [(1000, ReturnToPlaying)] \<and>
      length (particles s') = length (particles s) + 15 \<and>
      activePowerUps s' = activePowerUps s \<and> highScore s' = highScore s)"

definition gameOverEntered :: "game \<Rightarrow> game \<Rightarrow> game \<Rightarrow> bool" where
  "gameOverEntered c s s' =
     (gameState s' = GAME_OVER \<and>
      highScore s' = (if score c > highScore c then score c else highScore s) \<and>
      particles s' = particles s \<and> timers s' = timers s \<and>
      activePowerUps s' = activePowerUps s \<and> isPhoenixMode s' = isPhoenixMode s)"



text \<open>The events whose handler calls \<open>startGame\<close>, and event lists that contain none.\<close>

fun invokesStartGame :: "event \<Rightarrow> game \<Rightarrow> bool" where
  "invokesStartGame StartButton s = (gameState s \<in> {START, GAME_OVER, PAUSED})"
| "invokesStartGame Jump s = (gameState s = START)"
| "invokesStartGame JumpKey s = (gameState s = START)"
| "invokesStartGame _ s = False"

fun restartFree :: "event list \<Rightarrow> game \<Rightarrow> bool" where
  "restartFree [] s = True"
| "restartFree (e # es) s = (\<not> invokesStartGame e s \<and> restartFree es (step e s))"

text \<open>
  Sample inputs: a random source that always returns one half (no spawn, no shot) and one
  that always returns a hundredth (every spawn trial succeeds); a run in progress in a
  1200 x 800 window whose last frame was at time 0, and variants of it: with a shield, in
  phoenix mode, paused, about to leave the window at the bottom, and in a window that has
  shrunk to a height of 300.
\<close>

definition fixedRng :: rng where
  "fixedRng k = 1 / 2"


definition playing :: game where
  "playing = (initial 1200 800)\<lparr>gameState := PLAYING, lastTimeRef := Some 0\<rparr>"

definition shielded :: game where
  "shielded = playing\<lparr>activePowerUps := [SHIELD \<mapsto> 10000]\<rparr>"

definition revived :: game where
  "revived = playing\<lparr>isPhoenixMode := True, score := 7\<rparr>"

definition paused :: game where
  "paused = playing\<lparr>gameState := PAUSED\<rparr>"

definition pausedPhoenix :: game where
  "pausedPhoenix = paused\<lparr>isPhoenixMode := True, timers := [(5000, ClearPhoenixMode)]\<rparr>"


definition shieldedFalling :: game where
  "shieldedFalling = shielded\<lparr>playerY := 750, playerVelocity := 20\<rparr>"


text \<open>
  A power-up and an obstacle just ahead of the player, a score one short of the first boss
  threshold, and the same score with a boss present.
\<close>

definition shieldAhead :: game where
  "shieldAhead =
     playing\<lparr>powerUps := [\<lparr>ident = RandomId 0, pos_x = 60, pos_y = 400, width = 30,
                            height = 30, ptype = SHIELD\<rparr>]\<rparr>"

definition droneAhead :: game where
  "droneAhead =
     playing\<lparr>activePowerUps := [FIRE_WINGS \<mapsto> 10000],
             obstacles := [\<lparr>ident = RandomId 0, pos_x = 60, pos_y = 400, width = 60,
                             height = 60, otype = DRONE, speed = 5\<rparr>]\<rparr>"



text \<open>Further sample states: a completed challenge, and a score one short of 500 m.\<close>

definition veteran :: game where
  "veteran =
     playing\<lparr>challenges := [\<lparr>ch_id = ''CHALLENGE_1'', description = ''Survive 500m without dying'',
                              target = 500, progress = 500, completed = True, rewardSkin = ''ICE''\<rparr>],
             unlockedSkins := [''DEFAULT'', ''ICE''],
             activePowerUps := [FIRE_WINGS \<mapsto> 10000]\<rparr>"

definition nearly :: game where
  "nearly = playing\<lparr>score := 4999\<rparr>"

section \<open>What each part of a frame leaves unchanged\<close>

lemma createExplosion_frame:
  "gameState (createExplosion rnd x0 y0 col s) = gameState s"
  "score (createExplosion rnd x0 y0 col s) = score s"
  "highScore (createExplosion rnd x0 y0 col s) = highScore s"
  "view_width (createExplosion rnd x0 y0 col s) = view_width s"
  "view_height (createExplosion rnd x0 y0 col s) = view_height s"
  "playerY (createExplosion rnd x0 y0 col s) = playerY s"
  "playerVelocity (createExplosion rnd x0 y0 col s) = playerVelocity s"
  "isPhoenixMode (createExplosion rnd x0 y0 col s) = isPhoenixMode s"
  "activePowerUps (createExplosion rnd x0 y0 col s) = activePowerUps s"
  "obstacles (createExplosion rnd x0 y0 col s) = obstacles s"
  "powerUps (createExplosion rnd x0 y0 col s) = powerUps s"
  "boss (createExplosion rnd x0 y0 col s) = boss s"
  "projectiles (createExplosion rnd x0 y0 col s) = projectiles s"
  "currentSkin (createExplosion rnd x0 y0 col s) = currentSkin s"
  "unlockedSkins (createExplosion rnd x0 y0 col s) = unlockedSkins s"
  "challenges (createExplosion rnd x0 y0 col s) = challenges s"
  "lastTimeRef (createExplosion rnd x0 y0 col s) = lastTimeRef s"
  "timers (createExplosion rnd x0 y0 col s) = timers s"
  "keydownHeight (createExplosion rnd x0 y0 col s) = keydownHeight s"
  "length (particles (createExplosion rnd x0 y0 col s)) = length (particles s) + 15"
  by (simp_all add: createExplosion_def)

lemma handleDeath_frame:
  "score (handleDeath rnd c s) = score s"
  "view_width (handleDeath rnd c s) = view_width s"
  "view_height (handleDeath rnd c s) = view_height s"
  "playerY (handleDeath rnd c s) = playerY s"
  "playerVelocity (handleDeath rnd c s) = playerVelocity s"
  "obstacles (handleDeath rnd c s) = obstacles s"
  "powerUps (handleDeath rnd c s) = powerUps s"
  "boss (handleDeath rnd c s) = boss s"
  "projectiles (handleDeath rnd c s) = projectiles s"
  "currentSkin (handleDeath rnd c s) = currentSkin s"
  "unlockedSkins (handleDeath rnd c s) = unlockedSkins s"
  "challenges (handleDeath rnd c s) = challenges s"
  "lastTimeRef (handleDeath rnd c s) = lastTimeRef s"
  "keydownHeight (handleDeath rnd c s) = keydownHeight s"
  "gameState (handleDeath rnd c s) = deathState c (gameState s)"
  "activePowerUps (handleDeath rnd c s) = deathModifiers c (activePowerUps s)"
  by (simp_all add: handleDeath_def createExplosion_frame deathState_def deathModifiers_def)

lemma deathState_idem: "deathState c (deathState c g) = deathState c g"
  by (simp add: deathState_def)

lemma deathModifiers_idem: "deathModifiers c (deathModifiers c m) = deathModifiers c m"
  by (simp add: deathModifiers_def)

lemma spawnObstacle_draws: "snd (spawnObstacle rnd c s) = s\<lparr>draws := draws s + 3\<rparr>"
  by (simp add: spawnObstacle_def Let_def consume_def)

lemma spawnPowerUp_draws: "snd (spawnPowerUp rnd c s) = s\<lparr>draws := draws s + 3\<rparr>"
  by (simp add: spawnPowerUp_def Let_def consume_def)

lemma bodyShooting_draws:
  "snd (bodyShooting rnd c s) = s\<lparr>draws := draws (snd (bodyShooting rnd c s))\<rparr>"
  by (simp add: bodyShooting_def Let_def consume_def)

lemma bodySpawnObstacle_draws:
  "snd (bodySpawnObstacle rnd c s) = s\<lparr>draws := draws (snd (bodySpawnObstacle rnd c s))\<rparr>"
  by (simp add: bodySpawnObstacle_def Let_def consume_def spawnObstacle_draws)

lemma bodySpawnPowerUp_draws:
  "snd (bodySpawnPowerUp rnd c s) = s\<lparr>draws := draws (snd (bodySpawnPowerUp rnd c s))\<rparr>"
  by (simp add: bodySpawnPowerUp_def Let_def consume_def spawnPowerUp_draws)

lemma draws_only_trans:
  "t = s\<lparr>draws := a\<rparr> \<Longrightarrow> u = t\<lparr>draws := b\<rparr> \<Longrightarrow> u = s\<lparr>draws := b\<rparr>"
  by simp

lemma body_draws:
  "\<exists>d. snd (bodySpawnPowerUp rnd c (snd (bodySpawnObstacle rnd c (snd (bodyShooting rnd c s))))) =
        s\<lparr>draws := d\<rparr>"
proof -
  let ?b1 = "snd (bodyShooting rnd c s)"
  let ?b2 = "snd (bodySpawnObstacle rnd c ?b1)"
  let ?b3 = "snd (bodySpawnPowerUp rnd c ?b2)"
  have 1: "?b1 = s\<lparr>draws := draws ?b1\<rparr>"
    by (rule bodyShooting_draws)
  have 2: "?b2 = ?b1\<lparr>draws := draws ?b2\<rparr>"
    by (rule bodySpawnObstacle_draws)
  have 3: "?b3 = ?b2\<lparr>draws := draws ?b3\<rparr>"
    by (rule bodySpawnPowerUp_draws)
  have "?b3 = s\<lparr>draws := draws ?b3\<rparr>"
    by (rule draws_only_trans [OF draws_only_trans [OF 1 2] 3])
  then show ?thesis by (rule exI)
qed

lemma appendNew_keeps: "set xs \<subseteq> set (appendNew xs e)"
  by (cases e) (auto simp: appendNew_def)

lemma obstacleHits_frame:
  "score (obstacleHits rnd c obs s) = score s \<and>
   view_width (obstacleHits rnd c obs s) = view_width s \<and>
   view_height (obstacleHits rnd c obs s) = view_height s \<and>
   playerY (obstacleHits rnd c obs s) = playerY s \<and>
   playerVelocity (obstacleHits rnd c obs s) = playerVelocity s \<and>
   obstacles (obstacleHits rnd c obs s) = obstacles s \<and>
   powerUps (obstacleHits rnd c obs s) = powerUps s \<and>
   boss (obstacleHits rnd c obs s) = boss s \<and>
   projectiles (obstacleHits rnd c obs s) = projectiles s \<and>
   currentSkin (obstacleHits rnd c obs s) = currentSkin s \<and>
   unlockedSkins (obstacleHits rnd c obs s) = unlockedSkins s \<and>
   challenges (obstacleHits rnd c obs s) = challenges s \<and>
   lastTimeRef (obstacleHits rnd c obs s) = lastTimeRef s \<and>
   keydownHeight (obstacleHits rnd c obs s) = keydownHeight s"
  by (induction obs arbitrary: s) (simp_all add: handleDeath_frame createExplosion_frame)

lemma unguardedHit_Nil: "\<not> unguardedHit c []"
  by (simp add: unguardedHit_def)

lemma unguardedHit_Cons:
  "unguardedHit c (ob # rest) =
     ((\<not> truthy (activePowerUps c FIRE_WINGS) \<and> \<not> truthy (activePowerUps c WIND_GLIDE) \<and>
       hitsPlayer (playerY c) ob) \<or> unguardedHit c rest)"
  by (auto simp: unguardedHit_def)

lemma obstacleHits_death:
  "gameState (obstacleHits rnd c obs s) =
     (if unguardedHit c obs then deathState c (gameState s) else gameState s) \<and>
   activePowerUps (obstacleHits rnd c obs s) =
     (if unguardedHit c obs then deathModifiers c (activePowerUps s) else activePowerUps s)"
proof (induction obs arbitrary: s)
  case Nil
  then show ?case by (simp add: unguardedHit_Nil)
next
  case (Cons ob rest)
  define s1 where "s1 = (if hitsPlayer (playerY c) ob then
          (if truthy (activePowerUps c FIRE_WINGS) then
             createExplosion rnd (pos_x ob) (pos_y ob) ''#f97316'' s
           else if \<not> truthy (activePowerUps c WIND_GLIDE) then handleDeath rnd c s
           else s)
        else s)"
  define here where "here \<longleftrightarrow> (\<not> truthy (activePowerUps c FIRE_WINGS) \<and>
       \<not> truthy (activePowerUps c WIND_GLIDE) \<and> hitsPlayer (playerY c) ob)"
  have e: "obstacleHits rnd c (ob # rest) s = obstacleHits rnd c rest s1"
    by (simp add: s1_def)
  have u: "unguardedHit c (ob # rest) = (here \<or> unguardedHit c rest)"
    by (simp add: unguardedHit_Cons here_def)
  have g: "gameState s1 = (if here then deathState c (gameState s) else gameState s)"
    by (simp add: s1_def here_def handleDeath_frame createExplosion_frame)
  have m: "activePowerUps s1 =
      (if here then deathModifiers c (activePowerUps s) else activePowerUps s)"
    by (simp add: s1_def here_def handleDeath_frame createExplosion_frame)
  show ?case
    unfolding e u using Cons.IH [of s1]
    by (simp add: g m deathState_idem deathModifiers_idem)
qed

lemma powerUpHits_frame:
  "gameState (powerUpHits rnd c ps s) = gameState s \<and>
   score (powerUpHits rnd c ps s) = score s \<and>
   highScore (powerUpHits rnd c ps s) = highScore s \<and>
   view_width (powerUpHits rnd c ps s) = view_width s \<and>
   view_height (powerUpHits rnd c ps s) = view_height s \<and>
   playerY (powerUpHits rnd c ps s) = playerY s \<and>
   playerVelocity (powerUpHits rnd c ps s) = playerVelocity s \<and>
   isPhoenixMode (powerUpHits rnd c ps s) = isPhoenixMode s \<and>
   obstacles (powerUpHits rnd c ps s) = obstacles s \<and>
   powerUps (powerUpHits rnd c ps s) = powerUps s \<and>
   boss (powerUpHits rnd c ps s) = boss s \<and>
   projectiles (powerUpHits rnd c ps s) = projectiles s \<and>
   currentSkin (powerUpHits rnd c ps s) = currentSkin s \<and>
   unlockedSkins (powerUpHits rnd c ps s) = unlockedSkins s \<and>
   challenges (powerUpHits rnd c ps s) = challenges s \<and>
   lastTimeRef (powerUpHits rnd c ps s) = lastTimeRef s \<and>
   timers (powerUpHits rnd c ps s) = timers s \<and>
   keydownHeight (powerUpHits rnd c ps s) = keydownHeight s"
  by (induction ps arbitrary: s) (simp_all add: createExplosion_frame)

lemma powerUpHits_installs:
  "activePowerUps (powerUpHits rnd c ps s) = installPickups c ps (activePowerUps s)"
  by (induction ps arbitrary: s) (simp_all add: installPickups_def createExplosion_frame)

lemma projectileHits_frame:
  "projectileHits rnd b ps s = (ps', s') \<Longrightarrow>
   gameState s' = gameState s \<and>
   score s' = score s \<and>
   highScore s' = highScore s \<and>
   view_width s' = view_width s \<and>
   view_height s' = view_height s \<and>
   playerY s' = playerY s \<and>
   playerVelocity s' = playerVelocity s \<and>
   isPhoenixMode s' = isPhoenixMode s \<and>
   activePowerUps s' = activePowerUps s \<and>
   obstacles s' = obstacles s \<and>
   powerUps s' = powerUps s \<and>
   projectiles s' = projectiles s \<and>
   currentSkin s' = currentSkin s \<and>
   unlockedSkins s' = unlockedSkins s \<and>
   challenges s' = challenges s \<and>
   lastTimeRef s' = lastTimeRef s \<and>
   timers s' = timers s \<and>
   keydownHeight s' = keydownHeight s \<and>
   (boss s = None \<longrightarrow> boss s' = None)"
proof (induction ps arbitrary: s ps' s')
  case Nil
  then show ?case by simp
next
  case (Cons p ps)
  show ?case
  proof (cases "hitsBoss p b")
    case True
    let ?s2 = "createExplosion rnd (pos_x p) (pos_y p) ''#f97316''
                 (s\<lparr>boss := map_option (\<lambda>b'. b'\<lparr>health := max 0 (health b' - 5)\<rparr>) (boss s)\<rparr>)"
    obtain qs t where r: "projectileHits rnd b ps ?s2 = (qs, t)" by (cases "projectileHits rnd b ps ?s2")
    with Cons.prems True have "s' = t" by (simp add: Let_def)
    with Cons.IH [OF r] show ?thesis by (simp add: createExplosion_frame)
  next
    case False
    obtain qs t where r: "projectileHits rnd b ps s = (qs, t)" by (cases "projectileHits rnd b ps s")
    with Cons.prems False have "s' = t" by (simp add: Let_def)
    with Cons.IH [OF r] show ?thesis by simp
  qed
qed

lemma stepVelocity_frame:
  "score (stepVelocity d s) = score s \<and> view_width (stepVelocity d s) = view_width s \<and>
   view_height (stepVelocity d s) = view_height s \<and> playerY (stepVelocity d s) = playerY s \<and>
   activePowerUps (stepVelocity d s) = activePowerUps s \<and> boss (stepVelocity d s) = boss s \<and>
   obstacles (stepVelocity d s) = obstacles s \<and> powerUps (stepVelocity d s) = powerUps s \<and>
   unlockedSkins (stepVelocity d s) = unlockedSkins s \<and>
   challenges (stepVelocity d s) = challenges s \<and>
   gameState (stepVelocity d s) = gameState s \<and>
   keydownHeight (stepVelocity d s) = keydownHeight s \<and>
   playerVelocity (stepVelocity d s) = playerVelocity s + GRAVITY * d"
  by (simp add: stepVelocity_def)

lemma stepBackground_frame:
  "score (stepBackground c s) = score s \<and> view_width (stepBackground c s) = view_width s \<and>
   view_height (stepBackground c s) = view_height s \<and> playerY (stepBackground c s) = playerY s \<and>
   playerVelocity (stepBackground c s) = playerVelocity s \<and>
   activePowerUps (stepBackground c s) = activePowerUps s \<and> boss (stepBackground c s) = boss s \<and>
   obstacles (stepBackground c s) = obstacles s \<and> powerUps (stepBackground c s) = powerUps s \<and>
   unlockedSkins (stepBackground c s) = unlockedSkins s \<and>
   challenges (stepBackground c s) = challenges s \<and>
   keydownHeight (stepBackground c s) = keydownHeight s \<and>
   gameState (stepBackground c s) = gameState s"
  by (simp add: stepBackground_def)

lemma stepParticles_frame:
  "score (stepParticles s) = score s \<and> view_width (stepParticles s) = view_width s \<and>
   view_height (stepParticles s) = view_height s \<and> playerY (stepParticles s) = playerY s \<and>
   playerVelocity (stepParticles s) = playerVelocity s \<and>
   activePowerUps (stepParticles s) = activePowerUps s \<and> boss (stepParticles s) = boss s \<and>
   obstacles (stepParticles s) = obstacles s \<and> powerUps (stepParticles s) = powerUps s \<and>
   unlockedSkins (stepParticles s) = unlockedSkins s \<and>
   challenges (stepParticles s) = challenges s \<and>
   keydownHeight (stepParticles s) = keydownHeight s \<and>
   gameState (stepParticles s) = gameState s"
  by (simp add: stepParticles_def)

lemma stepPlayerY_frame:
  "score (stepPlayerY rnd c d s) = score s \<and>
   view_width (stepPlayerY rnd c d s) = view_width s \<and>
   view_height (stepPlayerY rnd c d s) = view_height s \<and>
   playerVelocity (stepPlayerY rnd c d s) = playerVelocity s \<and>
   boss (stepPlayerY rnd c d s) = boss s \<and>
   obstacles (stepPlayerY rnd c d s) = obstacles s \<and>
   powerUps (stepPlayerY rnd c d s) = powerUps s \<and>
   unlockedSkins (stepPlayerY rnd c d s) = unlockedSkins s \<and>
   challenges (stepPlayerY rnd c d s) = challenges s \<and>
   keydownHeight (stepPlayerY rnd c d s) = keydownHeight s"
  by (simp add: stepPlayerY_def Let_def handleDeath_frame)

lemma stepPlayerY_exact:
  "playerY s = playerY c \<Longrightarrow>
   playerY (stepPlayerY rnd c d s) =
     (if outOfBounds c d then playerY c else playerY c + playerVelocity c * d) \<and>
   gameState (stepPlayerY rnd c d s) =
     (if outOfBounds c d then deathState c (gameState s) else gameState s) \<and>
   activePowerUps (stepPlayerY rnd c d s) =
     (if outOfBounds c d then deathModifiers c (activePowerUps s) else activePowerUps s)"
  by (simp add: stepPlayerY_def Let_def handleDeath_frame outOfBounds_def)

lemma stepObstacles_frame:
  "score (stepObstacles rnd c d n s) = score s \<and>
   view_width (stepObstacles rnd c d n s) = view_width s \<and>
   view_height (stepObstacles rnd c d n s) = view_height s \<and>
   playerY (stepObstacles rnd c d n s) = playerY s \<and>
   playerVelocity (stepObstacles rnd c d n s) = playerVelocity s \<and>
   boss (stepObstacles rnd c d n s) = boss s \<and>
   powerUps (stepObstacles rnd c d n s) = powerUps s \<and>
   unlockedSkins (stepObstacles rnd c d n s) = unlockedSkins s \<and>
   challenges (stepObstacles rnd c d n s) = challenges s \<and>
   keydownHeight (stepObstacles rnd c d n s) = keydownHeight s \<and>
   obstacles (stepObstacles rnd c d n s) = appendNew (movedObstacles c d (obstacles s)) n \<and>
   gameState (stepObstacles rnd c d n s) =
     (if unguardedHit c (movedObstacles c d (obstacles s)) then deathState c (gameState s)
      else gameState s) \<and>
   activePowerUps (stepObstacles rnd c d n s) =
     (if unguardedHit c (movedObstacles c d (obstacles s)) then deathModifiers c (activePowerUps s)
      else activePowerUps s)"
  by (simp add: stepObstacles_def Let_def obstacleHits_frame obstacleHits_death)

lemma stepPowerUps_frame:
  "score (stepPowerUps rnd c d n s) = score s \<and>
   view_width (stepPowerUps rnd c d n s) = view_width s \<and>
   view_height (stepPowerUps rnd c d n s) = view_height s \<and>
   playerY (stepPowerUps rnd c d n s) = playerY s \<and>
   playerVelocity (stepPowerUps rnd c d n s) = playerVelocity s \<and>
   boss (stepPowerUps rnd c d n s) = boss s \<and>
   obstacles (stepPowerUps rnd c d n s) = obstacles s \<and>
   unlockedSkins (stepPowerUps rnd c d n s) = unlockedSkins s \<and>
   challenges (stepPowerUps rnd c d n s) = challenges s \<and>
   gameState (stepPowerUps rnd c d n s) = gameState s \<and>
   keydownHeight (stepPowerUps rnd c d n s) = keydownHeight s \<and>
   powerUps (stepPowerUps rnd c d n s) = appendNew (movedPowerUps c d (powerUps s)) n \<and>
   activePowerUps (stepPowerUps rnd c d n s) =
     installPickups c (movedPowerUps c d (powerUps s)) (activePowerUps s)"
  by (simp add: stepPowerUps_def Let_def powerUpHits_frame powerUpHits_installs)

lemma bossUpdater_frame:
  "score (bossUpdater rnd c time prev s) = score s \<and>
   view_width (bossUpdater rnd c time prev s) = view_width s \<and>
   view_height (bossUpdater rnd c time prev s) = view_height s \<and>
   playerY (bossUpdater rnd c time prev s) = playerY s \<and>
   playerVelocity (bossUpdater rnd c time prev s) = playerVelocity s \<and>
   activePowerUps (bossUpdater rnd c time prev s) = activePowerUps s \<and>
   powerUps (bossUpdater rnd c time prev s) = powerUps s \<and>
   gameState (bossUpdater rnd c time prev s) = gameState s \<and>
   unlockedSkins (bossUpdater rnd c time prev s) = unlockedSkins s \<and>
   challenges (bossUpdater rnd c time prev s) = challenges s \<and>
   keydownHeight (bossUpdater rnd c time prev s) = keydownHeight s"
  by (simp add: bossUpdater_def Let_def createExplosion_frame consume_def)

lemma bossUpdater_pool: "set (obstacles s) \<subseteq> set (obstacles (bossUpdater rnd c time prev s))"
  by (auto simp add: bossUpdater_def Let_def createExplosion_frame consume_def)

lemma stepBoss_frame:
  "score (stepBoss rnd c time s) = score s \<and>
   view_width (stepBoss rnd c time s) = view_width s \<and>
   view_height (stepBoss rnd c time s) = view_height s \<and>
   playerY (stepBoss rnd c time s) = playerY s \<and>
   playerVelocity (stepBoss rnd c time s) = playerVelocity s \<and>
   activePowerUps (stepBoss rnd c time s) = activePowerUps s \<and>
   powerUps (stepBoss rnd c time s) = powerUps s \<and>
   gameState (stepBoss rnd c time s) = gameState s \<and>
   unlockedSkins (stepBoss rnd c time s) = unlockedSkins s \<and>
   challenges (stepBoss rnd c time s) = challenges s \<and>
   keydownHeight (stepBoss rnd c time s) = keydownHeight s"
  by (simp add: stepBoss_def bossUpdater_frame split: option.split)

lemma stepBoss_idle: "boss c = None \<Longrightarrow> stepBoss rnd c time s = s"
  by (simp add: stepBoss_def)

lemma stepBoss_keeps_pool: "set (obstacles s) \<subseteq> set (obstacles (stepBoss rnd c time s))"
  using bossUpdater_pool by (simp add: stepBoss_def split: option.split)

lemma stepProjectiles_frame:
  "score (stepProjectiles rnd c n s) = score s \<and>
   view_width (stepProjectiles rnd c n s) = view_width s \<and>
   view_height (stepProjectiles rnd c n s) = view_height s \<and>
   playerY (stepProjectiles rnd c n s) = playerY s \<and>
   playerVelocity (stepProjectiles rnd c n s) = playerVelocity s \<and>
   activePowerUps (stepProjectiles rnd c n s) = activePowerUps s \<and>
   obstacles (stepProjectiles rnd c n s) = obstacles s \<and>
   powerUps (stepProjectiles rnd c n s) = powerUps s \<and>
   unlockedSkins (stepProjectiles rnd c n s) = unlockedSkins s \<and>
   challenges (stepProjectiles rnd c n s) = challenges s \<and>
   gameState (stepProjectiles rnd c n s) = gameState s \<and>
   keydownHeight (stepProjectiles rnd c n s) = keydownHeight s"
proof (cases "boss c")
  case None
  then show ?thesis by (simp add: stepProjectiles_def Let_def)
next
  case (Some b)
  let ?next = "filter (\<lambda>p. pos_x p < view_width c + 100)
                 (map (\<lambda>p. p\<lparr>pos_x := pos_x p + vx p\<rparr>) (projectiles s))"
  obtain qs t where r: "projectileHits rnd b ?next s = (qs, t)"
    by (cases "projectileHits rnd b ?next s")
  from projectileHits_frame [OF r] r Some show ?thesis
    by (simp add: stepProjectiles_def Let_def)
qed

lemma stepScore_frame:
  "score (stepScore c s) = score s + 1 \<and> view_width (stepScore c s) = view_width s \<and>
   view_height (stepScore c s) = view_height s \<and> playerY (stepScore c s) = playerY s \<and>
   playerVelocity (stepScore c s) = playerVelocity s \<and>
   activePowerUps (stepScore c s) = activePowerUps s \<and>
   powerUps (stepScore c s) = powerUps s \<and>
   gameState (stepScore c s) = gameState s \<and>
   keydownHeight (stepScore c s) = keydownHeight s \<and>
   challenges (stepScore c s) =
     map (advanceChallenge (isPhoenixMode c) (score s + 1)) (challenges s) \<and>
   unlockedSkins (stepScore c s) =
     unlockRewards (isPhoenixMode c) (score s + 1) (challenges s) (unlockedSkins s) \<and>
   boss (stepScore c s) =
     (if (score s + 1) mod 1000 = 0 \<and> boss c = None then Some (newBoss c) else boss s) \<and>
   obstacles (stepScore c s) =
     (if (score s + 1) mod 1000 = 0 \<and> boss c = None then [] else obstacles s)"
  by (simp add: stepScore_def Let_def spawnBoss_def)

lemma stepProjectiles_boss_idle:
  "boss c = None \<Longrightarrow> boss (stepProjectiles rnd c n s) = boss s"
  by (simp add: stepProjectiles_def Let_def)

lemmas step_frames =
  stepVelocity_frame stepPlayerY_frame stepBackground_frame stepProjectiles_frame
  stepObstacles_frame stepPowerUps_frame stepParticles_frame stepScore_frame
  stepBoss_frame

section \<open>The frame as a whole\<close>

lemma update_idle: "gameState s \<noteq> PLAYING \<Longrightarrow> update rnd time s = s"
  by (simp add: update_def)

lemma update_seed:
  "gameState s = PLAYING \<Longrightarrow> lastTimeRef s = None \<Longrightarrow>
   update rnd time s = s\<lparr>lastTimeRef := Some time\<rparr>"
  by (simp add: update_def)

lemma update_unfold:
  assumes "gameState s = PLAYING" "lastTimeRef s = Some l"
  shows "\<exists>d0. update rnd time s =
    (stepScore s
      (stepProjectiles rnd s (fst (bodyShooting rnd s s))
        (stepBoss rnd s time
          (stepPowerUps rnd s ((time - l) / 16)
             (fst (bodySpawnPowerUp rnd s (snd (bodySpawnObstacle rnd s (snd (bodyShooting rnd s s))))))
            (stepObstacles rnd s ((time - l) / 16)
               (fst (bodySpawnObstacle rnd s (snd (bodyShooting rnd s s))))
              (stepPlayerY rnd s ((time - l) / 16)
                (stepParticles (stepBackground s
                  (stepVelocity ((time - l) / 16) (s\<lparr>draws := d0\<rparr>))))))))))
    \<lparr>lastTimeRef := Some time\<rparr>"
proof -
  obtain d0 where B:
    "snd (bodySpawnPowerUp rnd s (snd (bodySpawnObstacle rnd s (snd (bodyShooting rnd s s))))) =
       s\<lparr>draws := d0\<rparr>"
    using body_draws by blast
  have "update rnd time s =
    (stepScore s
      (stepProjectiles rnd s (fst (bodyShooting rnd s s))
        (stepBoss rnd s time
          (stepPowerUps rnd s ((time - l) / 16)
             (fst (bodySpawnPowerUp rnd s (snd (bodySpawnObstacle rnd s (snd (bodyShooting rnd s s))))))
            (stepObstacles rnd s ((time - l) / 16)
               (fst (bodySpawnObstacle rnd s (snd (bodyShooting rnd s s))))
              (stepPlayerY rnd s ((time - l) / 16)
                (stepParticles (stepBackground s
                  (stepVelocity ((time - l) / 16) (s\<lparr>draws := d0\<rparr>))))))))))
    \<lparr>lastTimeRef := Some time\<rparr>"
    unfolding update_def Let_def B using assms by simp
  then show ?thesis by (rule exI)
qed

lemma update_running:
  assumes "gameState s = PLAYING" "lastTimeRef s = Some l"
  shows "score (update rnd time s) = score s + 1"
    and "view_height (update rnd time s) = view_height s"
    and "view_width (update rnd time s) = view_width s"
    and "playerVelocity (update rnd time s) = playerVelocity s + GRAVITY * ((time - l) / 16)"
    and "playerY (update rnd time s) =
           (if outOfBounds s ((time - l) / 16) then playerY s
            else playerY s + playerVelocity s * ((time - l) / 16))"
    and "challenges (update rnd time s) =
           map (advanceChallenge (isPhoenixMode s) (score s + 1)) (challenges s)"
    and "unlockedSkins (update rnd time s) =
           unlockRewards (isPhoenixMode s) (score s + 1) (challenges s) (unlockedSkins s)"
    and "lastTimeRef (update rnd time s) = Some time"
    and "keydownHeight (update rnd time s) = keydownHeight s"
    and "powerUps (update rnd time s) =
           appendNew (movedPowerUps s ((time - l) / 16) (powerUps s))
             (fst (bodySpawnPowerUp rnd s (snd (bodySpawnObstacle rnd s (snd (bodyShooting rnd s s))))))"
proof -
  from update_unfold [OF assms, of rnd time] obtain d0 where U: "update rnd time s =
    (stepScore s
      (stepProjectiles rnd s (fst (bodyShooting rnd s s))
        (stepBoss rnd s time
          (stepPowerUps rnd s ((time - l) / 16)
             (fst (bodySpawnPowerUp rnd s (snd (bodySpawnObstacle rnd s (snd (bodyShooting rnd s s))))))
            (stepObstacles rnd s ((time - l) / 16)
               (fst (bodySpawnObstacle rnd s (snd (bodyShooting rnd s s))))
              (stepPlayerY rnd s ((time - l) / 16)
                (stepParticles (stepBackground s
                  (stepVelocity ((time - l) / 16) (s\<lparr>draws := d0\<rparr>))))))))))
    \<lparr>lastTimeRef := Some time\<rparr>" by blast
  show "score (update rnd time s) = score s + 1"
    unfolding U by (simp add: step_frames)
  show "view_height (update rnd time s) = view_height s"
    unfolding U by (simp add: step_frames)
  show "view_width (update rnd time s) = view_width s"
    unfolding U by (simp add: step_frames)
  show "playerVelocity (update rnd time s) = playerVelocity s + GRAVITY * ((time - l) / 16)"
    unfolding U by (simp add: step_frames)
  show "playerY (update rnd time s) =
           (if outOfBounds s ((time - l) / 16) then playerY s
            else playerY s + playerVelocity s * ((time - l) / 16))"
    unfolding U by (simp add: step_frames stepPlayerY_exact)
  show "challenges (update rnd time s) =
           map (advanceChallenge (isPhoenixMode s) (score s + 1)) (challenges s)"
    unfolding U by (simp add: step_frames)
  show "unlockedSkins (update rnd time s) =
           unlockRewards (isPhoenixMode s) (score s + 1) (challenges s) (unlockedSkins s)"
    unfolding U by (simp add: step_frames)
  show "lastTimeRef (update rnd time s) = Some time"
    unfolding U by simp
  show "keydownHeight (update rnd time s) = keydownHeight s"
    unfolding U by (simp add: step_frames)
  show "powerUps (update rnd time s) =
           appendNew (movedPowerUps s ((time - l) / 16) (powerUps s))
             (fst (bodySpawnPowerUp rnd s (snd (bodySpawnObstacle rnd s (snd (bodyShooting rnd s s))))))"
    unfolding U by (simp add: step_frames)
qed

lemma update_death:
  assumes "gameState s = PLAYING" "lastTimeRef s = Some l"
  shows "gameState (update rnd time s) =
           (if deathTriggered s ((time - l) / 16) then deathState s PLAYING else PLAYING)"
    and "activePowerUps (update rnd time s) =
           installPickups s (movedPowerUps s ((time - l) / 16) (powerUps s))
             (if deathTriggered s ((time - l) / 16) then deathModifiers s (activePowerUps s)
              else activePowerUps s)"
proof -
  let ?d = "(time - l) / 16"
  from update_unfold [OF assms, of rnd time] obtain d0 where U: "update rnd time s =
    (stepScore s
      (stepProjectiles rnd s (fst (bodyShooting rnd s s))
        (stepBoss rnd s time
          (stepPowerUps rnd s ?d
             (fst (bodySpawnPowerUp rnd s (snd (bodySpawnObstacle rnd s (snd (bodyShooting rnd s s))))))
            (stepObstacles rnd s ?d
               (fst (bodySpawnObstacle rnd s (snd (bodyShooting rnd s s))))
              (stepPlayerY rnd s ?d
                (stepParticles (stepBackground s
                  (stepVelocity ?d (s\<lparr>draws := d0\<rparr>))))))))))
    \<lparr>lastTimeRef := Some time\<rparr>" by blast
  define s3 where "s3 = stepParticles (stepBackground s (stepVelocity ?d (s\<lparr>draws := d0\<rparr>)))"
  define s4 where "s4 = stepPlayerY rnd s ?d s3"
  define s5 where "s5 = stepObstacles rnd s ?d (fst (bodySpawnObstacle rnd s (snd (bodyShooting rnd s s)))) s4"
  have 3: "playerY s3 = playerY s" "gameState s3 = PLAYING" "activePowerUps s3 = activePowerUps s"
    "obstacles s3 = obstacles s" "powerUps s3 = powerUps s"
    using assms(1) by (simp_all add: s3_def step_frames)
  have 4: "gameState s4 = (if outOfBounds s ?d then deathState s PLAYING else PLAYING)"
    "activePowerUps s4 =
       (if outOfBounds s ?d then deathModifiers s (activePowerUps s) else activePowerUps s)"
    "obstacles s4 = obstacles s" "powerUps s4 = powerUps s"
    using stepPlayerY_exact [OF 3(1), of rnd ?d] 3
    by (simp_all add: s4_def step_frames)
  have 5: "gameState s5 = (if deathTriggered s ?d then deathState s PLAYING else PLAYING)"
    "activePowerUps s5 =
       (if deathTriggered s ?d then deathModifiers s (activePowerUps s) else activePowerUps s)"
    "powerUps s5 = powerUps s"
    by (simp_all add: s5_def step_frames 4 deathTriggered_def deathState_idem deathModifiers_idem)
  have U': "update rnd time s =
    (stepScore s
      (stepProjectiles rnd s (fst (bodyShooting rnd s s))
        (stepBoss rnd s time
          (stepPowerUps rnd s ?d
             (fst (bodySpawnPowerUp rnd s (snd (bodySpawnObstacle rnd s (snd (bodyShooting rnd s s))))))
            s5))))
    \<lparr>lastTimeRef := Some time\<rparr>"
    unfolding U s5_def s4_def s3_def ..
  show "gameState (update rnd time s) =
           (if deathTriggered s ?d then deathState s PLAYING else PLAYING)"
    unfolding U' by (simp add: step_frames 5)
  show "activePowerUps (update rnd time s) =
           installPickups s (movedPowerUps s ?d (powerUps s))
             (if deathTriggered s ?d then deathModifiers s (activePowerUps s)
              else activePowerUps s)"
    unfolding U' by (simp add: step_frames 5)
qed

lemma update_boss:
  assumes "gameState s = PLAYING" "lastTimeRef s = Some l"
  shows "boss s = None \<Longrightarrow> boss (update rnd time s) =
           (if (score s + 1) mod 1000 = 0 then Some (newBoss s) else None)"
    and "boss s = None \<Longrightarrow> (score s + 1) mod 1000 = 0 \<Longrightarrow> obstacles (update rnd time s) = []"
    and "boss s = None \<Longrightarrow> (score s + 1) mod 1000 \<noteq> 0 \<Longrightarrow>
         obstacles (update rnd time s) =
           appendNew (movedObstacles s ((time - l) / 16) (obstacles s))
             (fst (bodySpawnObstacle rnd s (snd (bodyShooting rnd s s))))"
    and "boss s = Some b \<Longrightarrow>
         set (movedObstacles s ((time - l) / 16) (obstacles s)) \<subseteq> set (obstacles (update rnd time s))"
proof -
  let ?d = "(time - l) / 16"
  from update_unfold [OF assms, of rnd time] obtain d0 where U: "update rnd time s =
    (stepScore s
      (stepProjectiles rnd s (fst (bodyShooting rnd s s))
        (stepBoss rnd s time
          (stepPowerUps rnd s ?d
             (fst (bodySpawnPowerUp rnd s (snd (bodySpawnObstacle rnd s (snd (bodyShooting rnd s s))))))
            (stepObstacles rnd s ?d
               (fst (bodySpawnObstacle rnd s (snd (bodyShooting rnd s s))))
              (stepPlayerY rnd s ?d
                (stepParticles (stepBackground s
                  (stepVelocity ?d (s\<lparr>draws := d0\<rparr>))))))))))
    \<lparr>lastTimeRef := Some time\<rparr>" by blast
  define s6 where "s6 = stepPowerUps rnd s ?d
             (fst (bodySpawnPowerUp rnd s (snd (bodySpawnObstacle rnd s (snd (bodyShooting rnd s s))))))
            (stepObstacles rnd s ?d
               (fst (bodySpawnObstacle rnd s (snd (bodyShooting rnd s s))))
              (stepPlayerY rnd s ?d
                (stepParticles (stepBackground s
                  (stepVelocity ?d (s\<lparr>draws := d0\<rparr>))))))"
  define s8 where "s8 = stepProjectiles rnd s (fst (bodyShooting rnd s s)) (stepBoss rnd s time s6)"
  have 6: "boss s6 = boss s" "score s6 = score s"
    "obstacles s6 = appendNew (movedObstacles s ?d (obstacles s))
             (fst (bodySpawnObstacle rnd s (snd (bodyShooting rnd s s))))"
    by (simp_all add: s6_def step_frames)
  have 8: "score s8 = score s" "obstacles s8 = obstacles (stepBoss rnd s time s6)"
    by (simp_all add: s8_def step_frames 6)
  have n8: "boss s8 = None" "obstacles s8 = obstacles s6" if "boss s = None"
    using that by (simp_all add: s8_def stepProjectiles_boss_idle stepBoss_idle 6 step_frames)
  have U': "update rnd time s = (stepScore s s8)\<lparr>lastTimeRef := Some time\<rparr>"
    unfolding U s8_def s6_def ..
  have b: "boss (update rnd time s) =
      (if (score s8 + 1) mod 1000 = 0 \<and> boss s = None then Some (newBoss s) else boss s8)"
    unfolding U' by (simp add: stepScore_frame)
  have o: "obstacles (update rnd time s) =
      (if (score s8 + 1) mod 1000 = 0 \<and> boss s = None then [] else obstacles s8)"
    unfolding U' by (simp add: stepScore_frame)
  show "boss (update rnd time s) =
           (if (score s + 1) mod 1000 = 0 then Some (newBoss s) else None)" if "boss s = None"
    unfolding b using that n8(1) [OF that] by (simp add: 8(1))
  show "obstacles (update rnd time s) = []" if "boss s = None" "(score s + 1) mod 1000 = 0"
    unfolding o using that by (simp add: 8(1))
  show "obstacles (update rnd time s) =
           appendNew (movedObstacles s ?d (obstacles s))
             (fst (bodySpawnObstacle rnd s (snd (bodyShooting rnd s s))))"
    if "boss s = None" "(score s + 1) mod 1000 \<noteq> 0"
    unfolding o using that n8(2) [OF that(1)] by (simp add: 8(1) 6(3))
  show "set (movedObstacles s ?d (obstacles s)) \<subseteq> set (obstacles (update rnd time s))"
    if "boss s = Some b"
  proof -
    have 1: "set (obstacles s6) \<subseteq> set (obstacles (stepBoss rnd s time s6))"
      by (rule stepBoss_keeps_pool)
    have 2: "set (movedObstacles s ?d (obstacles s)) \<subseteq> set (obstacles s6)"
      unfolding 6(3) by (rule appendNew_keeps)
    have 3: "obstacles (update rnd time s) = obstacles (stepBoss rnd s time s6)"
      unfolding o using that by (simp add: 8(2))
    from 1 2 show ?thesis unfolding 3 by (rule order_trans [rotated])
  qed
qed

section \<open>Events\<close>

lemma step_cells:
  "gameState (step e s) = gameState (handle e s)"
  "score (step e s) = score (handle e s)"
  "highScore (step e s) = highScore (handle e s)"
  "view_width (step e s) = view_width (handle e s)"
  "view_height (step e s) = view_height (handle e s)"
  "playerY (step e s) = playerY (handle e s)"
  "playerVelocity (step e s) = playerVelocity (handle e s)"
  "isPhoenixMode (step e s) = isPhoenixMode (handle e s)"
  "activePowerUps (step e s) = activePowerUps (handle e s)"
  "obstacles (step e s) = obstacles (handle e s)"
  "powerUps (step e s) = powerUps (handle e s)"
  "boss (step e s) = boss (handle e s)"
  "unlockedSkins (step e s) = unlockedSkins (handle e s)"
  "challenges (step e s) = challenges (handle e s)"
  "lastTimeRef (step e s) = lastTimeRef (handle e s)"
  "timers (step e s) = timers (handle e s)"
  by (simp_all add: step_def Let_def)


lemma step_same_state:
  "gameState (handle e s) = gameState s \<Longrightarrow> step e s = handle e s"
  by (simp add: step_def Let_def)

lemma run_Nil: "run [] s = s"
  by (simp add: run_def)

lemma run_Cons: "run (e # evs) s = run evs (step e s)"
  by (simp add: run_def)

lemma playing_fields:
  "gameState playing = PLAYING" "lastTimeRef playing = Some 0" "score playing = 0"
  "view_height playing = 800" "playerY playing = 400" "playerVelocity playing = 0"
  "obstacles playing = []" "powerUps playing = []" "boss playing = None"
  "isPhoenixMode playing = False" "activePowerUps playing = Map.empty"
  "keydownHeight playing = 800" "view_width playing = 1200"
  by (simp_all add: playing_def initial_def)

lemma fixedRng_spawns:
  "fst (bodyShooting fixedRng c s) = None"
  "fst (bodySpawnObstacle fixedRng c s) = None"
  "fst (bodySpawnPowerUp fixedRng c s) = None"
  by (simp_all add: bodyShooting_def bodySpawnObstacle_def bodySpawnPowerUp_def Let_def
        random_def fixedRng_def)

lemma timeout_fires:
  assumes "timers x = ts @ [(d, a)]"
  shows "handle (Timeout (length ts)) x = runTimer a (x\<lparr>timers := ts\<rparr>)"
  using assms by simp

lemma revive_timers:
  assumes "timers x = ts @ [(1000, ReturnToPlaying)]"
  shows "gameState (step (Timeout (length ts)) x) = PLAYING"
    and "timers (step (Timeout (length ts)) x) = ts @ [(5000, ClearPhoenixMode)]"
    and "\<not> isPhoenixMode (step (Timeout (length ts)) (step (Timeout (length ts)) x))"
proof -
  have h: "handle (Timeout (length ts)) x = runTimer ReturnToPlaying (x\<lparr>timers := ts\<rparr>)"
    using assms by (rule timeout_fires)
  show 1: "gameState (step (Timeout (length ts)) x) = PLAYING"
    unfolding step_cells h by simp
  show 2: "timers (step (Timeout (length ts)) x) = ts @ [(5000, ClearPhoenixMode)]"
    unfolding step_cells h by simp
  have "handle (Timeout (length ts)) (step (Timeout (length ts)) x) =
        runTimer ClearPhoenixMode ((step (Timeout (length ts)) x)\<lparr>timers := ts\<rparr>)"
    using 2 by (rule timeout_fires)
  then show "\<not> isPhoenixMode (step (Timeout (length ts)) (step (Timeout (length ts)) x))"
    unfolding step_cells(8) [of "Timeout (length ts)" "step (Timeout (length ts)) x"] by simp
qed

section \<open>Death resolution\<close>

text \<open>
  C1: one call of \<open>handleDeath\<close> takes exactly one of three outcomes, tested in order
  (the tests are JavaScript truthiness of the stored duration, which is membership in the
  modifier set as long as every stored duration is 10000):
  with SHIELD active the SHIELD entry is removed, an explosion is emitted and the life state
  is untouched; otherwise, with PHOENIX active or the player not in phoenix mode, the life
  state becomes \<open>PHOENIX_REVIVE\<close> with phoenix mode set and a 1000 ms timer armed, whose expiry
  returns to PLAYING and arms the 5000 ms timer that clears phoenix mode; otherwise the life
  state becomes \<open>GAME_OVER\<close> and the best score is raised to the score when the score exceeds it.
\<close>

theorem handleDeath_outcome:
  "((\<forall>k v. activePowerUps c k = Some v \<longrightarrow> v = 10000) \<longrightarrow>
      (truthy (activePowerUps c SHIELD) \<longleftrightarrow> SHIELD \<in> dom (activePowerUps c)) \<and>
      (truthy (activePowerUps c PHOENIX) \<longleftrightarrow> PHOENIX \<in> dom (activePowerUps c))) \<and>
   (truthy (activePowerUps c SHIELD) \<longrightarrow> shieldConsumed s (handleDeath rnd c s)) \<and>
   (\<not> truthy (activePowerUps c SHIELD) \<and>
    (truthy (activePowerUps c PHOENIX) \<or> \<not> isPhoenixMode c) \<longrightarrow>
      phoenixReviveEntered s (handleDeath rnd c s) \<and>
      gameState (step (Timeout (length (timers s))) (handleDeath rnd c s)) = PLAYING \<and>
      timers (step (Timeout (length (timers s))) (handleDeath rnd c s)) =
        timers s @ [(5000, ClearPhoenixMode)] \<and>
      \<not> isPhoenixMode (step (Timeout (length (timers s)))
                        (step (Timeout (length (timers s))) (handleDeath rnd c s)))) \<and>
   (\<not> truthy (activePowerUps c SHIELD) \<and> \<not> truthy (activePowerUps c PHOENIX) \<and>
    isPhoenixMode c \<longrightarrow> gameOverEntered c s (handleDeath rnd c s)) \<and>
   (shieldConsumed s (handleDeath rnd c s) \<or> phoenixReviveEntered s (handleDeath rnd c s) \<or>
    gameOverEntered c s (handleDeath rnd c s)) \<and>
   \<not> (shieldConsumed s (handleDeath rnd c s) \<and> phoenixReviveEntered s (handleDeath rnd c s)) \<and>
   \<not> (shieldConsumed s (handleDeath rnd c s) \<and> gameOverEntered c s (handleDeath rnd c s)) \<and>
   \<not> (phoenixReviveEntered s (handleDeath rnd c s) \<and> gameOverEntered c s (handleDeath rnd c s))"
proof -
  have member: "(\<forall>k v. activePowerUps c k = Some v \<longrightarrow> v = 10000) \<longrightarrow>
      (truthy (activePowerUps c SHIELD) \<longleftrightarrow> SHIELD \<in> dom (activePowerUps c)) \<and>
      (truthy (activePowerUps c PHOENIX) \<longleftrightarrow> PHOENIX \<in> dom (activePowerUps c))"
  proof (intro impI)
    assume inv: "\<forall>k v. activePowerUps c k = Some v \<longrightarrow> v = 10000"
    have "truthy (activePowerUps c k) \<longleftrightarrow> k \<in> dom (activePowerUps c)" for k
    proof (cases "activePowerUps c k")
      case None
      then show ?thesis by (simp add: truthy_def dom_def)
    next
      case (Some v)
      with inv have "v = 10000" by blast
      with Some show ?thesis by (simp add: truthy_def dom_def)
    qed
    then show "(truthy (activePowerUps c SHIELD) \<longleftrightarrow> SHIELD \<in> dom (activePowerUps c)) \<and>
      (truthy (activePowerUps c PHOENIX) \<longleftrightarrow> PHOENIX \<in> dom (activePowerUps c))"
      by blast
  qed
  have shield: "truthy (activePowerUps c SHIELD) \<longrightarrow> shieldConsumed s (handleDeath rnd c s)"
    by (simp add: handleDeath_def createExplosion_def shieldConsumed_def)
  have phoenix: "\<not> truthy (activePowerUps c SHIELD) \<and>
    (truthy (activePowerUps c PHOENIX) \<or> \<not> isPhoenixMode c) \<longrightarrow>
      phoenixReviveEntered s (handleDeath rnd c s) \<and>
      gameState (step (Timeout (length (timers s))) (handleDeath rnd c s)) = PLAYING \<and>
      timers (step (Timeout (length (timers s))) (handleDeath rnd c s)) =
        timers s @ [(5000, ClearPhoenixMode)] \<and>
      \<not> isPhoenixMode (step (Timeout (length (timers s)))
                        (step (Timeout (length (timers s))) (handleDeath rnd c s)))"
  proof (intro impI)
    assume g: "\<not> truthy (activePowerUps c SHIELD) \<and>
      (truthy (activePowerUps c PHOENIX) \<or> \<not> isPhoenixMode c)"
    then have p: "phoenixReviveEntered s (handleDeath rnd c s)"
      by (auto simp: handleDeath_def createExplosion_def phoenixReviveEntered_def)
    then have t: "timers (handleDeath rnd c s) = timers s @ [(1000, ReturnToPlaying)]"
      by (simp add: phoenixReviveEntered_def)
    from p revive_timers [OF t]
    show "phoenixReviveEntered s (handleDeath rnd c s) \<and>
      gameState (step (Timeout (length (timers s))) (handleDeath rnd c s)) = PLAYING \<and>
      timers (step (Timeout (length (timers s))) (handleDeath rnd c s)) =
        timers s @ [(5000, ClearPhoenixMode)] \<and>
      \<not> isPhoenixMode (step (Timeout (length (timers s)))
                        (step (Timeout (length (timers s))) (handleDeath rnd c s)))"
      by (intro conjI)
  qed
  have over: "\<not> truthy (activePowerUps c SHIELD) \<and> \<not> truthy (activePowerUps c PHOENIX) \<and>
    isPhoenixMode c \<longrightarrow> gameOverEntered c s (handleDeath rnd c s)"
    by (simp add: handleDeath_def gameOverEntered_def)
  have one: "shieldConsumed s (handleDeath rnd c s) \<or> phoenixReviveEntered s (handleDeath rnd c s) \<or>
    gameOverEntered c s (handleDeath rnd c s)"
    using shield phoenix over by blast
  have x1: "\<not> (shieldConsumed s (handleDeath rnd c s) \<and> phoenixReviveEntered s (handleDeath rnd c s))"
    by (auto simp: shieldConsumed_def phoenixReviveEntered_def)
  have x2: "\<not> (shieldConsumed s (handleDeath rnd c s) \<and> gameOverEntered c s (handleDeath rnd c s))"
    by (auto simp: shieldConsumed_def gameOverEntered_def)
  have x3: "\<not> (phoenixReviveEntered s (handleDeath rnd c s) \<and> gameOverEntered c s (handleDeath rnd c s))"
    by (auto simp: phoenixReviveEntered_def gameOverEntered_def)
  show ?thesis
    by (rule conjI [OF member conjI [OF shield conjI [OF phoenix conjI [OF over
          conjI [OF one conjI [OF x1 conjI [OF x2 x3]]]]]]])
qed

theorem handleDeath_outcome_witness:
  "activePowerUps shielded = [SHIELD \<mapsto> 10000] \<and>
   SHIELD \<in> dom (activePowerUps shielded) \<and>
   truthy (activePowerUps shielded SHIELD) \<and>
   shieldConsumed shielded (handleDeath fixedRng shielded shielded) \<and>
   \<not> truthy (activePowerUps playing SHIELD) \<and> \<not> isPhoenixMode playing \<and>
   phoenixReviveEntered playing (handleDeath fixedRng playing playing) \<and>
   \<not> truthy (activePowerUps revived SHIELD) \<and> \<not> truthy (activePowerUps revived PHOENIX) \<and>
   isPhoenixMode revived \<and>
   gameOverEntered revived revived (handleDeath fixedRng revived revived) \<and>
   highScore (handleDeath fixedRng revived revived) = 7"
proof -
  have d: "\<forall>k v. activePowerUps shielded k = Some v \<longrightarrow> v = 10000"
    "SHIELD \<in> dom (activePowerUps shielded)"
    by (simp_all add: shielded_def)
  note S = handleDeath_outcome [where c = shielded and s = shielded and rnd = fixedRng]
  from S [THEN conjunct1] d have a: "truthy (activePowerUps shielded SHIELD)"
    by blast
  have b: "\<not> truthy (activePowerUps playing SHIELD)" "\<not> isPhoenixMode playing"
    by (simp_all add: playing_fields truthy_def)
  have c: "\<not> truthy (activePowerUps revived SHIELD)" "\<not> truthy (activePowerUps revived PHOENIX)"
    "isPhoenixMode revived" "score revived = 7" "highScore revived = 0"
    by (simp_all add: revived_def playing_def initial_def truthy_def)
  from S [THEN conjunct2, THEN conjunct1] a
  have 1: "shieldConsumed shielded (handleDeath fixedRng shielded shielded)"
    by (rule mp)
  from handleDeath_outcome [where c = playing and s = playing and rnd = fixedRng,
      THEN conjunct2, THEN conjunct2, THEN conjunct1] b
  have 2: "phoenixReviveEntered playing (handleDeath fixedRng playing playing)"
    by blast
  from handleDeath_outcome [where c = revived and s = revived and rnd = fixedRng,
      THEN conjunct2, THEN conjunct2, THEN conjunct2, THEN conjunct1] c(1,2,3)
  have 3: "gameOverEntered revived revived (handleDeath fixedRng revived revived)"
    by blast
  from 3 c have 4: "highScore (handleDeath fixedRng revived revived) = 7"
    by (simp add: gameOverEntered_def)
  have e: "activePowerUps shielded = [SHIELD \<mapsto> 10000]"
    by (simp add: shielded_def)
  from e d(2) a b c(1,2,3) 1 2 3 4 show ?thesis
    by (intro conjI)
qed

section \<open>Integration\<close>

lemma no_death_without_obstacles:
  "\<not> outOfBounds s d \<Longrightarrow> obstacles s = [] \<Longrightarrow> \<not> deathTriggered s d"
  by (simp add: deathTriggered_def movedObstacles_def unguardedHit_Nil)

lemma no_death_when_guarded:
  "\<not> outOfBounds s d \<Longrightarrow>
   truthy (activePowerUps s FIRE_WINGS) \<or> truthy (activePowerUps s WIND_GLIDE) \<Longrightarrow>
   \<not> deathTriggered s d"
  by (auto simp: deathTriggered_def unguardedHit_def)

text \<open>
  C3, as stated, fails: the updater of \<open>setPlayerY\<close> multiplies by the \<open>playerVelocity\<close> of
  the render that created \<open>update\<close>, not by the velocity that \<open>setPlayerVelocity\<close> has just
  computed. From score 0, height 800, y = 400, velocity 0 and a delta of 1 the velocity
  becomes 0.4 but the position stays 400.
\<close>

theorem integration_counterexample:
  "\<not> (playerVelocity (update fixedRng 16 playing) = 4 / 10 \<and>
      playerY (update fixedRng 16 playing) = 4004 / 10 \<and>
      gameState (update fixedRng 16 playing) = PLAYING)"
proof -
  have "playerY (update fixedRng 16 playing) = 400"
    using update_running(5) [of playing 0 fixedRng 16]
    by (simp add: playing_fields outOfBounds_def PLAYER_SIZE_def)
  then show ?thesis by simp
qed

text \<open>
  C3, amended: one frame adds gravity times delta to the velocity and adds the velocity of
  before the frame times delta to the position (when that candidate is within the bounds);
  with no obstacle in the pool the life state stays PLAYING.
\<close>

theorem integration_previous_velocity:
  assumes "gameState s = PLAYING" and "lastTimeRef s = Some l"
    and "0 \<le> playerY s + playerVelocity s * ((time - l) / 16)"
    and "playerY s + playerVelocity s * ((time - l) / 16) \<le> view_height s - PLAYER_SIZE"
  shows "playerVelocity (update rnd time s) = playerVelocity s + GRAVITY * ((time - l) / 16) \<and>
         playerY (update rnd time s) = playerY s + playerVelocity s * ((time - l) / 16) \<and>
         (obstacles s = [] \<longrightarrow> gameState (update rnd time s) = PLAYING)"
proof -
  have nb: "\<not> outOfBounds s ((time - l) / 16)"
    using assms(3,4) by (simp add: outOfBounds_def)
  have 1: "playerVelocity (update rnd time s) = playerVelocity s + GRAVITY * ((time - l) / 16)"
    using assms(1,2) by (rule update_running(4))
  have 2: "playerY (update rnd time s) = playerY s + playerVelocity s * ((time - l) / 16)"
    using update_running(5) [OF assms(1,2), of rnd time] nb by simp
  have 3: "obstacles s = [] \<longrightarrow> gameState (update rnd time s) = PLAYING"
    using update_death(1) [OF assms(1,2), of rnd time] no_death_without_obstacles [OF nb]
    by simp
  show ?thesis by (rule conjI [OF 1 conjI [OF 2 3]])
qed

theorem integration_previous_velocity_witness:
  "gameState playing = PLAYING \<and> lastTimeRef playing = Some 0 \<and> score playing = 0 \<and>
   view_height playing = 800 \<and> playerY playing = 400 \<and> playerVelocity playing = 0 \<and>
   playerVelocity (update fixedRng 16 playing) = 4 / 10 \<and>
   playerY (update fixedRng 16 playing) = 400 \<and>
   gameState (update fixedRng 16 playing) = PLAYING"
proof -
  have b: "0 \<le> playerY playing + playerVelocity playing * ((16 - 0) / 16)"
    "playerY playing + playerVelocity playing * ((16 - 0) / 16) \<le> view_height playing - PLAYER_SIZE"
    by (simp_all add: playing_fields PLAYER_SIZE_def)
  from integration_previous_velocity [OF playing_fields(1,2) b, of fixedRng] show ?thesis
    by (simp add: playing_fields GRAVITY_def)
qed

section \<open>Pause, resume and the stored timestamp\<close>

lemma paused_run:
  "run [EscapeKey, Frame fixedRng 8000, ResumeButton] playing = playing"
proof -
  have 1: "step EscapeKey playing = playing\<lparr>gameState := PAUSED\<rparr>"
    by (simp add: step_def playing_def initial_def)
  have 2: "step (Frame fixedRng 8000) (playing\<lparr>gameState := PAUSED\<rparr>) = playing\<lparr>gameState := PAUSED\<rparr>"
    by (simp add: step_def update_idle)
  have 3: "step ResumeButton (playing\<lparr>gameState := PAUSED\<rparr>) = playing"
    by (simp add: step_def playing_def initial_def)
  have "run [EscapeKey, Frame fixedRng 8000, ResumeButton] playing =
        step ResumeButton (step (Frame fixedRng 8000) (step EscapeKey playing))"
    by (simp only: run_def fold_simps)
  then show ?thesis
    by (simp only: 1 2 3)
qed

lemma pause_elapsed:
  "playerVelocity (run [EscapeKey, Frame fixedRng 8000, ResumeButton, Frame fixedRng 8016] playing)
     = GRAVITY * (8016 / 16)"
proof -
  have "run [EscapeKey, Frame fixedRng 8000, ResumeButton, Frame fixedRng 8016] playing =
        step (Frame fixedRng 8016) (run [EscapeKey, Frame fixedRng 8000, ResumeButton] playing)"
    by (simp only: run_def fold_simps)
  then have "playerVelocity (run [EscapeKey, Frame fixedRng 8000, ResumeButton, Frame fixedRng 8016] playing) =
        playerVelocity (update fixedRng 8016 playing)"
    by (simp only: paused_run step_cells handle.simps)
  then show ?thesis
    using update_running(4) [of playing 0 fixedRng 8016]
    by (simp add: playing_fields)
qed

text \<open>
  C4, as stated, fails: \<open>lastTimeRef\<close> is written only at the end of a running frame and is
  never cleared. The last frame before the pause was at time 0, frames at time 8000 find the
  game paused, and the first frame after the resume, at time 8016, integrates a delta of
  8016 / 16 = 501 instead of at most (8016 - 8000) / 16 = 1; \<open>startGame\<close> keeps the stored
  timestamp; and a pending \<open>setTimeout\<close> callback fires while the game is paused.
\<close>

theorem pause_counterexample:
  "playerVelocity (run [EscapeKey, Frame fixedRng 8000, ResumeButton, Frame fixedRng 8016] playing)
     = GRAVITY * (8016 / 16) \<and>
   \<not> playerVelocity (run [EscapeKey, Frame fixedRng 8000, ResumeButton, Frame fixedRng 8016] playing)
       \<le> playerVelocity playing + GRAVITY * ((8016 - 8000) / 16) \<and>
   lastTimeRef (startGame playing playing) \<noteq> None \<and>
   gameState pausedPhoenix = PAUSED \<and> isPhoenixMode pausedPhoenix \<and>
   gameState (step (Timeout 0) pausedPhoenix) = PAUSED \<and>
   \<not> isPhoenixMode (step (Timeout 0) pausedPhoenix)"
proof -
  have a: "lastTimeRef (startGame playing playing) \<noteq> None"
    by (simp add: startGame_def playing_fields)
  have b: "gameState pausedPhoenix = PAUSED \<and> isPhoenixMode pausedPhoenix \<and>
    gameState (step (Timeout 0) pausedPhoenix) = PAUSED \<and>
    \<not> isPhoenixMode (step (Timeout 0) pausedPhoenix)"
    by (simp add: step_cells pausedPhoenix_def paused_def)
  from pause_elapsed a b show ?thesis
    by (simp add: playing_fields GRAVITY_def)
qed

text \<open>
  C4, amended: outside PLAYING a frame changes nothing at all; pausing, resuming and
  \<open>startGame\<close> keep the stored timestamp; a running frame stores its own timestamp, and its
  delta is measured from the stored one, whatever happened in between. The pending
  \<open>setTimeout\<close> callbacks are not suspended: the one that clears phoenix mode does so in
  every life state.
\<close>

theorem pause_keeps_timestamp:
  "(gameState s \<noteq> PLAYING \<longrightarrow> update rnd time s = s) \<and>
   lastTimeRef (step EscapeKey s) = lastTimeRef s \<and>
   lastTimeRef (step PauseButton s) = lastTimeRef s \<and>
   lastTimeRef (step ResumeButton s) = lastTimeRef s \<and>
   lastTimeRef (startGame c s) = lastTimeRef s \<and>
   (gameState s = PLAYING \<longrightarrow> lastTimeRef (update rnd time s) = Some time) \<and>
   (\<forall>l. gameState s = PLAYING \<and> lastTimeRef s = Some l \<longrightarrow>
      playerVelocity (update rnd time s) = playerVelocity s + GRAVITY * ((time - l) / 16)) \<and>
   (n < length (timers s) \<and> snd (timers s ! n) = ClearPhoenixMode \<longrightarrow>
      \<not> isPhoenixMode (step (Timeout n) s) \<and> gameState (step (Timeout n) s) = gameState s)"
proof -
  have a: "gameState s = PLAYING \<Longrightarrow> lastTimeRef (update rnd time s) = Some time"
    by (cases "lastTimeRef s") (simp_all add: update_seed update_running(8))
  have b: "\<And>l. gameState s = PLAYING \<Longrightarrow> lastTimeRef s = Some l \<Longrightarrow>
      playerVelocity (update rnd time s) = playerVelocity s + GRAVITY * ((time - l) / 16)"
    by (rule update_running(4))
  have c: "lastTimeRef (startGame c s) = lastTimeRef s"
    by (simp add: startGame_def)
  have d: "lastTimeRef (step EscapeKey s) = lastTimeRef s"
    "lastTimeRef (step PauseButton s) = lastTimeRef s"
    "lastTimeRef (step ResumeButton s) = lastTimeRef s"
    by (simp_all add: step_cells)
  have e: "n < length (timers s) \<and> snd (timers s ! n) = ClearPhoenixMode \<longrightarrow>
      \<not> isPhoenixMode (step (Timeout n) s) \<and> gameState (step (Timeout n) s) = gameState s"
    by (simp add: step_cells)
  from a b c d e show ?thesis
    by (simp add: update_idle)
qed

theorem pause_keeps_timestamp_witness:
  "gameState paused \<noteq> PLAYING \<and> update fixedRng 8000 paused = paused \<and>
   gameState playing = PLAYING \<and> lastTimeRef playing = Some 0 \<and>
   lastTimeRef (update fixedRng 8016 playing) = Some 8016 \<and>
   playerVelocity (update fixedRng 8016 playing) = playerVelocity playing + GRAVITY * ((8016 - 0) / 16) \<and>
   0 < length (timers pausedPhoenix) \<and> snd (timers pausedPhoenix ! 0) = ClearPhoenixMode \<and>
   \<not> isPhoenixMode (step (Timeout 0) pausedPhoenix)"
proof -
  have a: "gameState paused \<noteq> PLAYING" "gameState playing = PLAYING"
    "lastTimeRef playing = Some 0"
    by (simp_all add: paused_def playing_fields)
  have b: "0 < length (timers pausedPhoenix) \<and> snd (timers pausedPhoenix ! 0) = ClearPhoenixMode"
    by (simp add: pausedPhoenix_def)
  note P = pause_keeps_timestamp [where s = paused and rnd = fixedRng and time = 8000 and n = 0
      and c = paused]
  note Q = pause_keeps_timestamp [where s = playing and rnd = fixedRng and time = 8016 and n = 0
      and c = playing]
  note R = pause_keeps_timestamp [where s = pausedPhoenix and rnd = fixedRng and time = 0
      and n = 0 and c = paused]
  from P a(1) have 1: "update fixedRng 8000 paused = paused" by blast
  from Q a(2) have 2: "lastTimeRef (update fixedRng 8016 playing) = Some 8016" by blast
  from Q a(2,3) have 3: "playerVelocity (update fixedRng 8016 playing) =
      playerVelocity playing + GRAVITY * ((8016 - 0) / 16)" by blast
  from R b have 4: "\<not> isPhoenixMode (step (Timeout 0) pausedPhoenix)" by blast
  from a b 1 2 3 4 show ?thesis by (intro conjI) simp_all
qed

section \<open>Collisions\<close>

lemma shieldAhead_fields:
  "gameState shieldAhead = PLAYING" "lastTimeRef shieldAhead = Some 0" "score shieldAhead = 0"
  "view_height shieldAhead = 800" "playerY shieldAhead = 400" "playerVelocity shieldAhead = 0"
  "obstacles shieldAhead = []" "boss shieldAhead = None" "isPhoenixMode shieldAhead = False"
  "activePowerUps shieldAhead = Map.empty"
  "powerUps shieldAhead = [\<lparr>ident = RandomId 0, pos_x = 60, pos_y = 400, width = 30,
                            height = 30, ptype = SHIELD\<rparr>]"
  by (simp_all add: shieldAhead_def playing_fields)

lemma droneAhead_fields:
  "gameState droneAhead = PLAYING" "lastTimeRef droneAhead = Some 0" "score droneAhead = 0"
  "view_height droneAhead = 800" "playerY droneAhead = 400" "playerVelocity droneAhead = 0"
  "boss droneAhead = None" "isPhoenixMode droneAhead = False"
  "activePowerUps droneAhead = [FIRE_WINGS \<mapsto> 10000]"
  "obstacles droneAhead = [\<lparr>ident = RandomId 0, pos_x = 60, pos_y = 400, width = 60,
                             height = 60, otype = DRONE, speed = 5\<rparr>]"
  by (simp_all add: droneAhead_def playing_fields)

text \<open>
  C5: a SHIELD power-up that overlaps the player after the move is picked up (the modifier
  is installed with 10000) and is still in the pool at the end of the frame: the
  \<open>setPowerUps\<close> updater returns the moved list unfiltered.
\<close>

theorem pickup_leaves_powerUp_in_pool:
  "powerUps (update fixedRng 16 shieldAhead) =
     [\<lparr>ident = RandomId 0, pos_x = 55, pos_y = 400, width = 30, height = 30, ptype = SHIELD\<rparr>] \<and>
   hitsPlayer (playerY shieldAhead)
     \<lparr>ident = RandomId 0, pos_x = 55, pos_y = 400, width = 30, height = 30, ptype = SHIELD\<rparr> \<and>
   activePowerUps (update fixedRng 16 shieldAhead) SHIELD = Some 10000"
proof -
  have moved: "movedPowerUps shieldAhead ((16 - 0) / 16) (powerUps shieldAhead) =
     [\<lparr>ident = RandomId 0, pos_x = 55, pos_y = 400, width = 30, height = 30, ptype = SHIELD\<rparr>]"
    by (simp add: movedPowerUps_def shieldAhead_fields currentSpeed_def GAME_SPEED_BASE_def)
  have pool: "powerUps (update fixedRng 16 shieldAhead) =
     [\<lparr>ident = RandomId 0, pos_x = 55, pos_y = 400, width = 30, height = 30, ptype = SHIELD\<rparr>]"
    unfolding update_running(10) [OF shieldAhead_fields(1,2)] moved
    by (simp add: fixedRng_spawns appendNew_def)
  have hit: "hitsPlayer (playerY shieldAhead)
     \<lparr>ident = RandomId 0, pos_x = 55, pos_y = 400, width = 30, height = 30, ptype = SHIELD\<rparr>"
    by (simp add: hitsPlayer_def shieldAhead_fields PLAYER_SIZE_def)
  have "activePowerUps (update fixedRng 16 shieldAhead) SHIELD = Some 10000"
    unfolding update_death(2) [OF shieldAhead_fields(1,2)] moved
    using hit by (simp add: installPickups_def)
  with pool hit show ?thesis by (intro conjI)
qed

text \<open>
  C6: with \<open>FIRE_WINGS\<close> active, an obstacle that overlaps the player causes no death, and it
  is still in the pool at the end of the frame: the branch only emits the explosion.
\<close>

theorem fire_wings_leaves_obstacle_in_pool:
  "truthy (activePowerUps droneAhead FIRE_WINGS) \<and>
   obstacles (update fixedRng 16 droneAhead) =
     [\<lparr>ident = RandomId 0, pos_x = 55, pos_y = 400, width = 60, height = 60,
       otype = DRONE, speed = 5\<rparr>] \<and>
   hitsPlayer (playerY droneAhead)
     \<lparr>ident = RandomId 0, pos_x = 55, pos_y = 400, width = 60, height = 60,
      otype = DRONE, speed = 5\<rparr> \<and>
   gameState (update fixedRng 16 droneAhead) = PLAYING"
proof -
  have fw: "truthy (activePowerUps droneAhead FIRE_WINGS)"
    by (simp add: droneAhead_fields truthy_def)
  have moved: "movedObstacles droneAhead ((16 - 0) / 16) (obstacles droneAhead) =
     [\<lparr>ident = RandomId 0, pos_x = 55, pos_y = 400, width = 60, height = 60,
       otype = DRONE, speed = 5\<rparr>]"
    by (simp add: movedObstacles_def droneAhead_fields currentSpeed_def GAME_SPEED_BASE_def)
  have pool: "obstacles (update fixedRng 16 droneAhead) =
     [\<lparr>ident = RandomId 0, pos_x = 55, pos_y = 400, width = 60, height = 60,
       otype = DRONE, speed = 5\<rparr>]"
    using update_boss(3) [OF droneAhead_fields(1,2), of fixedRng 16] moved
    by (simp add: droneAhead_fields(3,7) fixedRng_spawns appendNew_def)
  have hit: "hitsPlayer (playerY droneAhead)
     \<lparr>ident = RandomId 0, pos_x = 55, pos_y = 400, width = 60, height = 60,
      otype = DRONE, speed = 5\<rparr>"
    by (simp add: hitsPlayer_def droneAhead_fields PLAYER_SIZE_def)
  have nb: "\<not> outOfBounds droneAhead ((16 - 0) / 16)"
    by (simp add: outOfBounds_def droneAhead_fields PLAYER_SIZE_def)
  have alive: "gameState (update fixedRng 16 droneAhead) = PLAYING"
    using update_death(1) [OF droneAhead_fields(1,2), of fixedRng 16]
      no_death_when_guarded [OF nb] fw
    by simp
  from fw pool hit alive show ?thesis by (intro conjI)
qed

section \<open>Boss spawn\<close>





section \<open>Challenges and skins\<close>

lemma advanceChallenge_cases:
  "advanceChallenge True n ch = ch"
  "completed ch \<Longrightarrow> advanceChallenge ph n ch = ch"
  "\<not> completed ch \<Longrightarrow> advanceChallenge False n ch =
     (if target ch \<le> real n / 10 then ch\<lparr>progress := target ch, completed := True\<rparr>
      else ch\<lparr>progress := real n / 10\<rparr>)"
  by (simp_all add: advanceChallenge_def Let_def)

lemma fold_insert_new:
  "distinct acc \<Longrightarrow>
   distinct (fold (\<lambda>e acc. if e \<in> set acc then acc else acc @ [e]) xs acc) \<and>
   set (fold (\<lambda>e acc. if e \<in> set acc then acc else acc @ [e]) xs acc) = set acc \<union> set xs"
  by (induction xs arbitrary: acc) auto

lemma newSet_distinct: "distinct (newSet xs)" and newSet_set: "set (newSet xs) = set xs"
  using fold_insert_new [of "[]" xs] by (simp_all add: newSet_def)

lemma unlockRewards_grows:
  "(distinct skins \<longrightarrow> distinct (unlockRewards ph n chs skins)) \<and>
   set skins \<subseteq> set (unlockRewards ph n chs skins) \<and>
   (\<forall>ch \<in> set chs. \<not> completed ch \<and> \<not> ph \<and> target ch \<le> real n / 10 \<longrightarrow>
      rewardSkin ch \<in> set (unlockRewards ph n chs skins))"
proof (induction chs arbitrary: skins)
  case Nil
  then show ?case by simp
next
  case (Cons ch chs)
  let ?sk = "if \<not> completed ch \<and> \<not> ph \<and> real n / 10 \<ge> target ch
             then newSet (skins @ [rewardSkin ch]) else skins"
  have eq: "unlockRewards ph n (ch # chs) skins = unlockRewards ph n chs ?sk" by simp
  have d: "distinct skins \<longrightarrow> distinct ?sk" by (simp add: newSet_distinct)
  have s: "set skins \<subseteq> set ?sk" by (auto simp: newSet_set)
  have r: "\<not> completed ch \<and> \<not> ph \<and> target ch \<le> real n / 10 \<longrightarrow> rewardSkin ch \<in> set ?sk"
    by (simp add: newSet_set)
  from Cons.IH [of ?sk] d s r show ?case
    unfolding eq by auto
qed

lemma map_advance_keeps:
  "length (map (advanceChallenge ph n) chs) = length chs \<and>
   (\<forall>i < length chs. completed (chs ! i) \<longrightarrow> map (advanceChallenge ph n) chs ! i = chs ! i)"
  by (simp add: advanceChallenge_cases)

lemma runTimer_progress:
  "challenges (runTimer a s) = challenges s \<and> unlockedSkins (runTimer a s) = unlockedSkins s \<and>
   activePowerUps (runTimer a s) = activePowerUps s"
  by (cases a) simp_all

lemma update_progress:
  "challenges (update rnd time s) =
     (if gameState s = PLAYING \<and> lastTimeRef s \<noteq> None
      then map (advanceChallenge (isPhoenixMode s) (score s + 1)) (challenges s)
      else challenges s) \<and>
   unlockedSkins (update rnd time s) =
     (if gameState s = PLAYING \<and> lastTimeRef s \<noteq> None
      then unlockRewards (isPhoenixMode s) (score s + 1) (challenges s) (unlockedSkins s)
      else unlockedSkins s)"
proof (cases "gameState s = PLAYING")
  case False
  then show ?thesis by (simp add: update_idle)
next
  case True
  show ?thesis
  proof (cases "lastTimeRef s")
    case None
    with True show ?thesis by (simp add: update_seed)
  next
    case (Some l)
    with True show ?thesis by (simp add: update_running)
  qed
qed

lemma handle_progress:
  "(challenges (handle e s) = challenges s \<and> unlockedSkins (handle e s) = unlockedSkins s) \<or>
   (challenges (handle e s) =
      map (advanceChallenge (isPhoenixMode s) (score s + 1)) (challenges s) \<and>
    unlockedSkins (handle e s) =
      unlockRewards (isPhoenixMode s) (score s + 1) (challenges s) (unlockedSkins s))"
proof (cases e)
  case (Frame rnd time)
  with update_progress [of rnd time s] show ?thesis by auto
next
  case Jump
  then show ?thesis by (simp add: handleJump_def startGame_def)
next
  case JumpKey
  then show ?thesis by (simp add: handleJump_def startGame_def)
next
  case EscapeKey
  then show ?thesis by simp
next
  case PauseButton
  then show ?thesis by simp
next
  case ResumeButton
  then show ?thesis by simp
next
  case StartButton
  then show ?thesis by (simp add: startGame_def)
next
  case MenuButton
  then show ?thesis by simp
next
  case (SelectSkin skin)
  then show ?thesis by simp
next
  case (Resize w h)
  then show ?thesis by simp
next
  case (Timeout n)
  then show ?thesis by (simp add: runTimer_progress)
qed

lemma step_challenges_keep:
  "length (challenges (step e s)) = length (challenges s) \<and>
   (\<forall>i < length (challenges s). completed (challenges s ! i) \<longrightarrow>
      challenges (step e s) ! i = challenges s ! i) \<and>
   (distinct (unlockedSkins s) \<longrightarrow> distinct (unlockedSkins (step e s))) \<and>
   set (unlockedSkins s) \<subseteq> set (unlockedSkins (step e s))"
  unfolding step_cells
  using handle_progress [of e s]
    map_advance_keeps [of "isPhoenixMode s" "score s + 1" "challenges s"]
    unlockRewards_grows [of "unlockedSkins s" "isPhoenixMode s" "score s + 1" "challenges s"]
  by auto

lemma run_challenges_keep:
  "length (challenges (run evs s)) = length (challenges s) \<and>
   (\<forall>i < length (challenges s). completed (challenges s ! i) \<longrightarrow>
      challenges (run evs s) ! i = challenges s ! i) \<and>
   (distinct (unlockedSkins s) \<longrightarrow> distinct (unlockedSkins (run evs s))) \<and>
   set (unlockedSkins s) \<subseteq> set (unlockedSkins (run evs s))"
proof (induction evs arbitrary: s)
  case Nil
  then show ?case by (simp add: run_Nil)
next
  case (Cons e evs)
  from Cons.IH [of "step e s"] step_challenges_keep [of e s] show ?case
    unfolding run_Cons by auto
qed

lemma fold_insert_fresh:
  "distinct (acc @ xs) \<Longrightarrow>
   fold (\<lambda>e acc. if e \<in> set acc then acc else acc @ [e]) xs acc = acc @ xs"
  by (induction xs arbitrary: acc) auto

lemma newSet_idempotent:
  assumes "distinct skins" "r \<in> set skins"
  shows "newSet (skins @ [r]) = skins"
proof -
  have "fold (\<lambda>e acc. if e \<in> set acc then acc else acc @ [e]) skins [] = skins"
    using fold_insert_fresh [of "[]" skins] assms(1) by simp
  with assms(2) show ?thesis by (simp add: newSet_def)
qed

text \<open>
  C8: over any sequence of events a completed challenge is never changed again (its flag
  stays true and its progress stays at the target), the list of unlocked skins stays free of
  duplicates and only grows. A frame recomputes the progress of a challenge as
  (score + 1) / 10 only when the game runs, the player is not in phoenix mode and the
  challenge is not completed; reaching the target clamps the progress, sets the flag and puts
  the reward skin into the unlocked list, which is unchanged when the skin is already there.
\<close>

theorem challenge_completion_is_final:
  "length (challenges (run evs s)) = length (challenges s) \<and>
   (\<forall>i < length (challenges s). completed (challenges s ! i) \<longrightarrow>
      challenges (run evs s) ! i = challenges s ! i) \<and>
   (distinct (unlockedSkins s) \<longrightarrow> distinct (unlockedSkins (run evs s))) \<and>
   set (unlockedSkins s) \<subseteq> set (unlockedSkins (run evs s)) \<and>
   challenges (update rnd time s) =
     (if gameState s = PLAYING \<and> lastTimeRef s \<noteq> None
      then map (advanceChallenge (isPhoenixMode s) (score s + 1)) (challenges s)
      else challenges s) \<and>
   unlockedSkins (update rnd time s) =
     (if gameState s = PLAYING \<and> lastTimeRef s \<noteq> None
      then unlockRewards (isPhoenixMode s) (score s + 1) (challenges s) (unlockedSkins s)
      else unlockedSkins s) \<and>
   advanceChallenge True n ch = ch \<and>
   (completed ch \<longrightarrow> advanceChallenge ph n ch = ch) \<and>
   (\<not> completed ch \<longrightarrow> advanceChallenge False n ch =
      (if target ch \<le> real n / 10 then ch\<lparr>progress := target ch, completed := True\<rparr>
       else ch\<lparr>progress := real n / 10\<rparr>)) \<and>
   (distinct skins \<longrightarrow> distinct (unlockRewards ph n chs skins)) \<and>
   set skins \<subseteq> set (unlockRewards ph n chs skins) \<and>
   (\<forall>c \<in> set chs. \<not> completed c \<and> \<not> ph \<and> target c \<le> real n / 10 \<longrightarrow>
      rewardSkin c \<in> set (unlockRewards ph n chs skins)) \<and>
   (distinct skins \<and> r \<in> set skins \<longrightarrow> newSet (skins @ [r]) = skins)"
  using update_progress [of rnd time s] run_challenges_keep [of evs s]
    unlockRewards_grows [of skins ph n chs]
    advanceChallenge_cases(1) [of n ch] advanceChallenge_cases(2) [of ch ph n]
    advanceChallenge_cases(3) [of ch n] newSet_idempotent [of skins r]
  by blast

lemma veteran_fields:
  "gameState veteran = PLAYING" "lastTimeRef veteran = Some 0"
  "unlockedSkins veteran = [''DEFAULT'', ''ICE'']"
  "challenges veteran = [\<lparr>ch_id = ''CHALLENGE_1'', description = ''Survive 500m without dying'',
                              target = 500, progress = 500, completed = True, rewardSkin = ''ICE''\<rparr>]"
  "activePowerUps veteran = [FIRE_WINGS \<mapsto> 10000]"
  by (simp_all add: veteran_def playing_fields)

lemma nearly_fields:
  "gameState nearly = PLAYING" "lastTimeRef nearly = Some 0" "score nearly = 4999"
  "isPhoenixMode nearly = False" "unlockedSkins nearly = [''DEFAULT'']"
  "challenges nearly = [\<lparr>ch_id = ''CHALLENGE_1'', description = ''Survive 500m without dying'',
                              target = 500, progress = 0, completed = False, rewardSkin = ''ICE''\<rparr>]"
  by (simp_all add: nearly_def playing_def initial_def)

theorem challenge_completion_is_final_witness:
  "0 < length (challenges veteran) \<and> completed (challenges veteran ! 0) \<and>
   challenges (run [Frame fixedRng 16, Jump, Frame fixedRng 32] veteran) ! 0 =
     challenges veteran ! 0 \<and>
   distinct (unlockedSkins veteran) \<and>
   distinct (unlockedSkins (run [Frame fixedRng 16, Jump, Frame fixedRng 32] veteran)) \<and>
   gameState nearly = PLAYING \<and> lastTimeRef nearly \<noteq> None \<and>
   challenges (update fixedRng 16 nearly) =
     [\<lparr>ch_id = ''CHALLENGE_1'', description = ''Survive 500m without dying'',
       target = 500, progress = 500, completed = True, rewardSkin = ''ICE''\<rparr>] \<and>
   unlockedSkins (update fixedRng 16 nearly) = [''DEFAULT'', ''ICE'']"
proof -
  have a: "0 < length (challenges veteran)" "completed (challenges veteran ! 0)"
    "distinct (unlockedSkins veteran)"
    by (simp_all add: veteran_fields)
  from challenge_completion_is_final [of "[Frame fixedRng 16, Jump, Frame fixedRng 32]" veteran] a
  have b: "challenges (run [Frame fixedRng 16, Jump, Frame fixedRng 32] veteran) ! 0 =
     challenges veteran ! 0"
    "distinct (unlockedSkins (run [Frame fixedRng 16, Jump, Frame fixedRng 32] veteran))"
    by blast+
  from challenge_completion_is_final [of "[]" nearly fixedRng 16]
  have c: "challenges (update fixedRng 16 nearly) =
             map (advanceChallenge False 5000) (challenges nearly)"
    "unlockedSkins (update fixedRng 16 nearly) =
             unlockRewards False 5000 (challenges nearly) (unlockedSkins nearly)"
    by (simp_all add: nearly_fields)
  have d: "map (advanceChallenge False 5000) (challenges nearly) =
     [\<lparr>ch_id = ''CHALLENGE_1'', description = ''Survive 500m without dying'',
       target = 500, progress = 500, completed = True, rewardSkin = ''ICE''\<rparr>]"
    by (simp add: nearly_fields advanceChallenge_def)
  have e: "unlockRewards False 5000 (challenges nearly) (unlockedSkins nearly) = [''DEFAULT'', ''ICE'']"
    by (simp add: nearly_fields newSet_def)
  from a b c d e show ?thesis by (simp add: nearly_fields)
qed

section \<open>Active modifiers\<close>

lemma installPickups_at:
  "installPickups c ps m k =
     (if \<exists>p \<in> set ps. hitsPlayer (playerY c) p \<and> ptype p = k then Some 10000 else m k)"
proof (induction ps arbitrary: m)
  case Nil
  then show ?case by (simp add: installPickups_def)
next
  case (Cons p ps)
  have eq: "installPickups c (p # ps) m =
      installPickups c ps (if hitsPlayer (playerY c) p then m(ptype p \<mapsto> 10000) else m)"
    by (simp add: installPickups_def)
  show ?case
    unfolding eq Cons.IH by auto
qed

lemma update_modifiers_idle:
  "gameState s \<noteq> PLAYING \<or> lastTimeRef s = None \<Longrightarrow>
   activePowerUps (update rnd time s) = activePowerUps s"
  by (cases "gameState s = PLAYING") (auto simp: update_idle update_seed)

lemma update_removal:
  assumes "gameState s = PLAYING" "lastTimeRef s = Some l"
    and "activePowerUps s k \<noteq> None" "activePowerUps (update rnd time s) k = None"
  shows "k = SHIELD \<and> truthy (activePowerUps s SHIELD) \<and> deathTriggered s ((time - l) / 16)"
proof -
  define base where "base = (if deathTriggered s ((time - l) / 16)
     then deathModifiers s (activePowerUps s) else activePowerUps s)"
  have "activePowerUps (update rnd time s) k =
      installPickups s (movedPowerUps s ((time - l) / 16) (powerUps s)) base k"
    unfolding update_death(2) [OF assms(1,2)] base_def ..
  with assms(4) have "base k = None"
    by (simp add: installPickups_at split: if_splits)
  with assms(3) show ?thesis
    by (auto simp: base_def deathModifiers_def split: if_splits)
qed

lemma update_keeps:
  assumes "k \<noteq> SHIELD" "activePowerUps s k = Some 10000"
  shows "activePowerUps (update rnd time s) k = Some 10000"
proof (cases "gameState s \<noteq> PLAYING \<or> lastTimeRef s = None")
  case True
  from update_modifiers_idle [OF True] assms(2) show ?thesis by simp
next
  case False
  then obtain l where r: "gameState s = PLAYING" "lastTimeRef s = Some l" by auto
  define base where "base = (if deathTriggered s ((time - l) / 16)
     then deathModifiers s (activePowerUps s) else activePowerUps s)"
  have b: "base k = Some 10000"
    using assms by (simp add: base_def deathModifiers_def)
  have "activePowerUps (update rnd time s) k =
      installPickups s (movedPowerUps s ((time - l) / 16) (powerUps s)) base k"
    unfolding update_death(2) [OF r] base_def ..
  with b show ?thesis by (simp add: installPickups_at)
qed

lemma update_durations:
  assumes "\<forall>k v. activePowerUps s k = Some v \<longrightarrow> v = 10000"
  shows "\<forall>k v. activePowerUps (update rnd time s) k = Some v \<longrightarrow> v = 10000"
proof (cases "gameState s \<noteq> PLAYING \<or> lastTimeRef s = None")
  case True
  from update_modifiers_idle [OF True] assms show ?thesis by simp
next
  case False
  then obtain l where r: "gameState s = PLAYING" "lastTimeRef s = Some l" by auto
  define base where "base = (if deathTriggered s ((time - l) / 16)
     then deathModifiers s (activePowerUps s) else activePowerUps s)"
  have b: "\<forall>k v. base k = Some v \<longrightarrow> v = 10000"
    using assms by (simp add: base_def deathModifiers_def)
  have e: "activePowerUps (update rnd time s) =
      installPickups s (movedPowerUps s ((time - l) / 16) (powerUps s)) base"
    unfolding update_death(2) [OF r] base_def ..
  show ?thesis
  proof (intro allI impI)
    fix k v
    assume "activePowerUps (update rnd time s) k = Some v"
    with b show "v = 10000"
      unfolding e by (auto simp: installPickups_at split: if_splits)
  qed
qed

lemma step_modifiers:
  "activePowerUps (step e s) =
     (if invokesStartGame e s then Map.empty
      else case e of Frame r tm \<Rightarrow> activePowerUps (update r tm s) | _ \<Rightarrow> activePowerUps s)"
proof (cases e)
  case (Frame rnd time)
  then show ?thesis by (simp add: step_cells)
next
  case Jump
  then show ?thesis by (simp add: step_cells handleJump_def startGame_def)
next
  case JumpKey
  then show ?thesis by (simp add: step_cells handleJump_def startGame_def keydownRender_def)
next
  case EscapeKey
  then show ?thesis by (simp add: step_cells)
next
  case PauseButton
  then show ?thesis by (simp add: step_cells)
next
  case ResumeButton
  then show ?thesis by (simp add: step_cells)
next
  case StartButton
  then show ?thesis by (simp add: step_cells startGame_def)
next
  case MenuButton
  then show ?thesis by (simp add: step_cells)
next
  case (SelectSkin skin)
  then show ?thesis by (simp add: step_cells)
next
  case (Resize w h)
  then show ?thesis by (simp add: step_cells)
next
  case (Timeout n)
  then show ?thesis by (simp add: step_cells runTimer_progress)
qed

lemma step_keeps:
  assumes "k \<noteq> SHIELD" "activePowerUps s k = Some 10000" "\<not> invokesStartGame e s"
  shows "activePowerUps (step e s) k = Some 10000"
proof (cases e)
  case (Frame rnd time)
  with assms(3) update_keeps [OF assms(1,2), of rnd time] show ?thesis
    by (simp add: step_modifiers)
qed (use assms in \<open>simp_all add: step_modifiers\<close>)

lemma step_durations:
  assumes "\<forall>k v. activePowerUps s k = Some v \<longrightarrow> v = 10000"
  shows "\<forall>k v. activePowerUps (step e s) k = Some v \<longrightarrow> v = 10000"
proof (cases "invokesStartGame e s")
  case True
  then show ?thesis by (simp add: step_modifiers)
next
  case False
  show ?thesis
  proof (cases e)
    case (Frame rnd time)
    with False update_durations [OF assms, of rnd time] show ?thesis
      by (simp add: step_modifiers)
  qed (use assms False in \<open>simp_all add: step_modifiers\<close>)
qed

lemma run_durations:
  "\<forall>k v. activePowerUps s k = Some v \<longrightarrow> v = 10000 \<Longrightarrow>
   \<forall>k v. activePowerUps (run evs s) k = Some v \<longrightarrow> v = 10000"
proof (induction evs arbitrary: s)
  case Nil
  then show ?case by (simp add: run_Nil)
next
  case (Cons e evs)
  from Cons.IH [OF step_durations [OF Cons.prems, of e]] show ?case
    unfolding run_Cons .
qed

lemma run_persists:
  "k \<noteq> SHIELD \<Longrightarrow> activePowerUps s k = Some 10000 \<Longrightarrow> restartFree evs s \<Longrightarrow>
   activePowerUps (run evs s) k = Some 10000"
proof (induction evs arbitrary: s)
  case Nil
  then show ?case by (simp add: run_Nil)
next
  case (Cons e evs)
  from Cons.prems have nr: "\<not> invokesStartGame e s" and rf: "restartFree evs (step e s)"
    by simp_all
  from step_keeps [OF Cons.prems(1,2) nr]
  have "activePowerUps (step e s) k = Some 10000" .
  from Cons.IH [OF Cons.prems(1) this rf] show ?case
    unfolding run_Cons .
qed

text \<open>
  C9: the modifiers after a running frame are exactly the modifiers before it, as
  \<open>handleDeath\<close> leaves them when the frame calls it (it removes the SHIELD entry when SHIELD
  is active and nothing else; the frame calls it exactly when the candidate position is out
  of the bounds or a moved obstacle hits the unguarded player), and with 10000 stored for
  the kind of every power-up that overlaps the player after the move. So an entry that
  disappears in a frame is the SHIELD entry, it was active, and death resolution ran; outside
  a running frame \<open>update\<close> changes no entry. Every other event leaves the modifiers as they
  are, except the events that call \<open>startGame\<close>, which empties them. Hence a modifier other
  than SHIELD, once installed, is there with 10000 for as long as no restart happens, and all
  durations are 10000 at all times when they were so at the start.
\<close>

theorem modifiers_never_decay:
  "(\<forall>l. gameState s = PLAYING \<and> lastTimeRef s = Some l \<longrightarrow>
      activePowerUps (update rnd time s) =
        installPickups s (movedPowerUps s ((time - l) / 16) (powerUps s))
          (if deathTriggered s ((time - l) / 16) then activePowerUps (handleDeath rnd s s)
           else activePowerUps s)) \<and>
   (\<forall>l. gameState s = PLAYING \<and> lastTimeRef s = Some l \<and> activePowerUps s k \<noteq> None \<and>
        activePowerUps (update rnd time s) k = None \<longrightarrow>
      k = SHIELD \<and> truthy (activePowerUps s SHIELD) \<and> deathTriggered s ((time - l) / 16)) \<and>
   (gameState s \<noteq> PLAYING \<or> lastTimeRef s = None \<longrightarrow>
      activePowerUps (update rnd time s) = activePowerUps s) \<and>
   installPickups c ps m k =
     (if \<exists>p \<in> set ps. hitsPlayer (playerY c) p \<and> ptype p = k then Some 10000 else m k) \<and>
   activePowerUps (handleDeath rnd c t) =
     (if truthy (activePowerUps c SHIELD) then (activePowerUps t)(SHIELD := None)
      else activePowerUps t) \<and>
   activePowerUps (obstacleHits rnd c obs t) =
     (if unguardedHit c obs then activePowerUps (handleDeath rnd c t) else activePowerUps t) \<and>
   activePowerUps (stepPlayerY rnd c d t) =
     (if playerY t + playerVelocity c * d < 0 \<or>
         playerY t + playerVelocity c * d > view_height c - PLAYER_SIZE
      then activePowerUps (handleDeath rnd c t) else activePowerUps t) \<and>
   activePowerUps (powerUpHits rnd c ps t) = installPickups c ps (activePowerUps t) \<and>
   activePowerUps (step e s) =
     (if invokesStartGame e s then Map.empty
      else case e of Frame r tm \<Rightarrow> activePowerUps (update r tm s) | _ \<Rightarrow> activePowerUps s) \<and>
   (k \<noteq> SHIELD \<and> activePowerUps s k = Some 10000 \<and> restartFree evs s \<longrightarrow>
      activePowerUps (run evs s) k = Some 10000) \<and>
   ((\<forall>k v. activePowerUps s k = Some v \<longrightarrow> v = 10000) \<longrightarrow>
    (\<forall>k v. activePowerUps (run evs s) k = Some v \<longrightarrow> v = 10000))"
proof -
  have 1: "\<forall>l. gameState s = PLAYING \<and> lastTimeRef s = Some l \<longrightarrow>
      activePowerUps (update rnd time s) =
        installPickups s (movedPowerUps s ((time - l) / 16) (powerUps s))
          (if deathTriggered s ((time - l) / 16) then activePowerUps (handleDeath rnd s s)
           else activePowerUps s)"
  proof (intro allI impI)
    fix l
    assume "gameState s = PLAYING \<and> lastTimeRef s = Some l"
    then have r: "gameState s = PLAYING" "lastTimeRef s = Some l" by simp_all
    show "activePowerUps (update rnd time s) =
        installPickups s (movedPowerUps s ((time - l) / 16) (powerUps s))
          (if deathTriggered s ((time - l) / 16) then activePowerUps (handleDeath rnd s s)
           else activePowerUps s)"
      unfolding update_death(2) [OF r] handleDeath_frame ..
  qed
  have 2: "\<forall>l. gameState s = PLAYING \<and> lastTimeRef s = Some l \<and> activePowerUps s k \<noteq> None \<and>
        activePowerUps (update rnd time s) k = None \<longrightarrow>
      k = SHIELD \<and> truthy (activePowerUps s SHIELD) \<and> deathTriggered s ((time - l) / 16)"
  proof (intro allI impI)
    fix l
    assume h: "gameState s = PLAYING \<and> lastTimeRef s = Some l \<and> activePowerUps s k \<noteq> None \<and>
        activePowerUps (update rnd time s) k = None"
    from h have "gameState s = PLAYING" "lastTimeRef s = Some l" "activePowerUps s k \<noteq> None"
      "activePowerUps (update rnd time s) k = None" by simp_all
    then show "k = SHIELD \<and> truthy (activePowerUps s SHIELD) \<and> deathTriggered s ((time - l) / 16)"
      by (rule update_removal)
  qed
  have 3: "gameState s \<noteq> PLAYING \<or> lastTimeRef s = None \<longrightarrow>
      activePowerUps (update rnd time s) = activePowerUps s"
    by (rule impI) (rule update_modifiers_idle)
  have 4: "installPickups c ps m k =
     (if \<exists>p \<in> set ps. hitsPlayer (playerY c) p \<and> ptype p = k then Some 10000 else m k)"
    by (rule installPickups_at)
  have 5: "activePowerUps (handleDeath rnd c t) =
     (if truthy (activePowerUps c SHIELD) then (activePowerUps t)(SHIELD := None)
      else activePowerUps t)"
    by (simp add: handleDeath_frame deathModifiers_def)
  have 6: "activePowerUps (obstacleHits rnd c obs t) =
     (if unguardedHit c obs then activePowerUps (handleDeath rnd c t) else activePowerUps t)"
    by (simp add: obstacleHits_death handleDeath_frame)
  have 7: "activePowerUps (stepPlayerY rnd c d t) =
     (if playerY t + playerVelocity c * d < 0 \<or>
         playerY t + playerVelocity c * d > view_height c - PLAYER_SIZE
      then activePowerUps (handleDeath rnd c t) else activePowerUps t)"
    by (simp add: stepPlayerY_def Let_def)
  have 8: "activePowerUps (powerUpHits rnd c ps t) = installPickups c ps (activePowerUps t)"
    by (rule powerUpHits_installs)
  have 9: "activePowerUps (step e s) =
     (if invokesStartGame e s then Map.empty
      else case e of Frame r tm \<Rightarrow> activePowerUps (update r tm s) | _ \<Rightarrow> activePowerUps s)"
    by (rule step_modifiers)
  have 10: "k \<noteq> SHIELD \<and> activePowerUps s k = Some 10000 \<and> restartFree evs s \<longrightarrow>
      activePowerUps (run evs s) k = Some 10000"
    by (simp add: run_persists)
  have 11: "(\<forall>k v. activePowerUps s k = Some v \<longrightarrow> v = 10000) \<longrightarrow>
    (\<forall>k v. activePowerUps (run evs s) k = Some v \<longrightarrow> v = 10000)"
    by (rule impI) (rule run_durations)
  show ?thesis
    by (rule conjI [OF 1 conjI [OF 2 conjI [OF 3 conjI [OF 4 conjI [OF 5 conjI [OF 6
          conjI [OF 7 conjI [OF 8 conjI [OF 9 conjI [OF 10 11]]]]]]]]]])
qed

lemma shielded_fields:
  "gameState shielded = PLAYING" "lastTimeRef shielded = Some 0" "score shielded = 0"
  "view_height shielded = 800" "playerY shielded = 400" "playerVelocity shielded = 0"
  "obstacles shielded = []" "powerUps shielded = []" "boss shielded = None"
  "activePowerUps shielded = [SHIELD \<mapsto> 10000]"
  by (simp_all add: shielded_def playing_fields)

lemma shieldedFalling_fields:
  "gameState shieldedFalling = PLAYING" "lastTimeRef shieldedFalling = Some 0"
  "view_height shieldedFalling = 800" "playerY shieldedFalling = 750"
  "playerVelocity shieldedFalling = 20"
  "obstacles shieldedFalling = []" "powerUps shieldedFalling = []"
  "activePowerUps shieldedFalling = [SHIELD \<mapsto> 10000]"
  by (simp_all add: shieldedFalling_def shielded_fields)

theorem modifiers_never_decay_witness:
  "gameState shieldedFalling = PLAYING \<and> lastTimeRef shieldedFalling = Some 0 \<and>
   activePowerUps shieldedFalling SHIELD = Some 10000 \<and>
   deathTriggered shieldedFalling ((16 - 0) / 16) \<and>
   activePowerUps (update fixedRng 16 shieldedFalling) SHIELD = None \<and>
   truthy (activePowerUps shieldedFalling SHIELD) \<and>
   gameState shielded = PLAYING \<and> lastTimeRef shielded = Some 0 \<and>
   \<not> deathTriggered shielded ((16 - 0) / 16) \<and>
   activePowerUps (update fixedRng 16 shielded) SHIELD = Some 10000 \<and>
   gameState shieldAhead = PLAYING \<and> lastTimeRef shieldAhead = Some 0 \<and>
   activePowerUps shieldAhead SHIELD = None \<and>
   activePowerUps (update fixedRng 16 shieldAhead) SHIELD = Some 10000 \<and>
   gameState (initial 1200 800) = START \<and>
   activePowerUps (update fixedRng 16 (initial 1200 800)) = activePowerUps (initial 1200 800) \<and>
   FIRE_WINGS \<noteq> SHIELD \<and> activePowerUps veteran = [FIRE_WINGS \<mapsto> 10000] \<and>
   restartFree [Jump, Frame fixedRng 16] veteran \<and>
   activePowerUps (run [Jump, Frame fixedRng 16] veteran) FIRE_WINGS = Some 10000 \<and>
   (activePowerUps (run [Jump, Frame fixedRng 16] veteran) SHIELD = None \<or>
    activePowerUps (run [Jump, Frame fixedRng 16] veteran) SHIELD = Some 10000)"
proof -
  have rf: "gameState shieldedFalling = PLAYING \<and> lastTimeRef shieldedFalling = Some 0"
    by (simp add: shieldedFalling_fields)
  have sf: "activePowerUps shieldedFalling SHIELD = Some 10000"
    by (simp add: shieldedFalling_fields)
  have df: "deathTriggered shieldedFalling ((16 - 0) / 16)"
    by (simp add: deathTriggered_def outOfBounds_def shieldedFalling_fields PLAYER_SIZE_def)
  note F = modifiers_never_decay [where s = shieldedFalling and k = SHIELD and rnd = fixedRng
      and time = 16 and c = shieldedFalling and t = shieldedFalling]
  note F1 = F [THEN conjunct1, THEN spec, THEN mp, OF rf]
  note F5 = F [THEN conjunct2, THEN conjunct2, THEN conjunct2, THEN conjunct2, THEN conjunct1]
  have hf: "activePowerUps (handleDeath fixedRng shieldedFalling shieldedFalling) SHIELD = None"
    unfolding F5 by (simp add: shieldedFalling_fields truthy_def)
  have uf: "activePowerUps (update fixedRng 16 shieldedFalling) SHIELD = None"
    unfolding F1 using df hf
    by (simp add: shieldedFalling_fields movedPowerUps_def installPickups_def)
  have gone: "gameState shieldedFalling = PLAYING \<and> lastTimeRef shieldedFalling = Some 0 \<and>
      activePowerUps shieldedFalling SHIELD \<noteq> None \<and>
      activePowerUps (update fixedRng 16 shieldedFalling) SHIELD = None"
    using rf sf uf by simp
  note F2 = F [THEN conjunct2, THEN conjunct1, THEN spec, THEN mp, OF gone]
  note tr = F2 [THEN conjunct2, THEN conjunct1]
  have rs: "gameState shielded = PLAYING \<and> lastTimeRef shielded = Some 0"
    by (simp add: shielded_fields)
  have ds: "\<not> deathTriggered shielded ((16 - 0) / 16)"
    by (rule no_death_without_obstacles)
      (simp_all add: outOfBounds_def shielded_fields PLAYER_SIZE_def)
  note S1 = modifiers_never_decay [where s = shielded and rnd = fixedRng and time = 16,
      THEN conjunct1, THEN spec, THEN mp, OF rs]
  have us: "activePowerUps (update fixedRng 16 shielded) SHIELD = Some 10000"
    unfolding S1 using ds
    by (simp add: shielded_fields movedPowerUps_def installPickups_def)
  have ra: "gameState shieldAhead = PLAYING \<and> lastTimeRef shieldAhead = Some 0"
    by (simp add: shieldAhead_fields)
  have sa: "activePowerUps shieldAhead SHIELD = None"
    by (simp add: shieldAhead_fields)
  have moved: "movedPowerUps shieldAhead ((16 - 0) / 16) (powerUps shieldAhead) =
     [\<lparr>ident = RandomId 0, pos_x = 55, pos_y = 400, width = 30, height = 30, ptype = SHIELD\<rparr>]"
    by (simp add: movedPowerUps_def shieldAhead_fields currentSpeed_def GAME_SPEED_BASE_def)
  have hit: "hitsPlayer (playerY shieldAhead)
     \<lparr>ident = RandomId 0, pos_x = 55, pos_y = 400, width = 30, height = 30, ptype = SHIELD\<rparr>"
    by (simp add: hitsPlayer_def shieldAhead_fields PLAYER_SIZE_def)
  note A1 = modifiers_never_decay [where s = shieldAhead and rnd = fixedRng and time = 16,
      THEN conjunct1, THEN spec, THEN mp, OF ra]
  have ua: "activePowerUps (update fixedRng 16 shieldAhead) SHIELD = Some 10000"
    unfolding A1 moved using hit by (simp add: installPickups_def)
  have gi: "gameState (initial 1200 800) = START"
    by (simp add: initial_def)
  then have gi': "gameState (initial 1200 800) \<noteq> PLAYING \<or> lastTimeRef (initial 1200 800) = None"
    by simp
  from modifiers_never_decay [where s = "initial 1200 800" and rnd = fixedRng and time = 16,
      THEN conjunct2, THEN conjunct2, THEN conjunct1] gi'
  have ui: "activePowerUps (update fixedRng 16 (initial 1200 800)) =
      activePowerUps (initial 1200 800)"
    by (rule mp)
  have m: "activePowerUps veteran = [FIRE_WINGS \<mapsto> 10000]"
    by (simp add: veteran_fields)
  have a: "FIRE_WINGS \<noteq> SHIELD \<and> activePowerUps veteran FIRE_WINGS = Some 10000 \<and>
    restartFree [Jump, Frame fixedRng 16] veteran"
    by (simp add: veteran_fields)
  have b: "\<forall>k v. activePowerUps veteran k = Some v \<longrightarrow> v = 10000"
    by (simp add: veteran_fields)
  note T = modifiers_never_decay [where s = veteran and k = FIRE_WINGS
      and evs = "[Jump, Frame fixedRng 16]"]
  note T10 = T [THEN conjunct2, THEN conjunct2, THEN conjunct2, THEN conjunct2, THEN conjunct2,
      THEN conjunct2, THEN conjunct2, THEN conjunct2, THEN conjunct2]
  from T10 [THEN conjunct1] a
  have e: "activePowerUps (run [Jump, Frame fixedRng 16] veteran) FIRE_WINGS = Some 10000"
    by (rule mp)
  from T10 [THEN conjunct2] b
  have f: "\<forall>k v. activePowerUps (run [Jump, Frame fixedRng 16] veteran) k = Some v \<longrightarrow> v = 10000"
    by (rule mp)
  have g: "activePowerUps (run [Jump, Frame fixedRng 16] veteran) SHIELD = None \<or>
    activePowerUps (run [Jump, Frame fixedRng 16] veteran) SHIELD = Some 10000"
  proof (cases "activePowerUps (run [Jump, Frame fixedRng 16] veteran) SHIELD")
    case None
    then show ?thesis by simp
  next
    case (Some v)
    with f have "v = 10000" by blast
    with Some show ?thesis by simp
  qed
  show ?thesis
    by (rule conjI [OF rf [THEN conjunct1] conjI [OF rf [THEN conjunct2] conjI [OF sf
          conjI [OF df conjI [OF uf conjI [OF tr conjI [OF rs [THEN conjunct1] conjI [OF rs [THEN conjunct2]
          conjI [OF ds conjI [OF us conjI [OF ra [THEN conjunct1] conjI [OF ra [THEN conjunct2]
          conjI [OF sa conjI [OF ua conjI [OF gi conjI [OF ui conjI [OF a [THEN conjunct1]
          conjI [OF m conjI [OF a [THEN conjunct2, THEN conjunct2] conjI [OF e g]]]]]]]]]]]]]]]]]]]])
qed

section \<open>Vertical bounds\<close>











lemma resize_step: "step (Resize w h) s = s\<lparr>view_width := w, view_height := h\<rparr>"
  by (simp add: step_def Let_def)










section \<open>Restart\<close>

text \<open>
  C10: \<open>startGame\<close> resets the per-run state (score, player velocity, the four pools, the
  modifiers, phoenix mode, the boss) and enters PLAYING; the best score, the unlocked skins,
  the challenges and the selected skin are left as they were. The position it writes is half
  the height of the render that created the callback. The buttons and a pointer press call
  the \<open>startGame\<close> of the latest render; the \<open>keydown\<close> listener calls the one of the render
  in which the life state last changed. After the window has been resized from 800 to 600 on
  the start screen, starting with the Space key puts the player at 400, which is not
  mid-height, while the pointer and the button put it at 300.
\<close>

theorem keyboard_start_uses_stale_height:
  "score (startGame c s) = 0 \<and> playerY (startGame c s) = view_height c / 2 \<and>
   playerVelocity (startGame c s) = 0 \<and> obstacles (startGame c s) = [] \<and>
   powerUps (startGame c s) = [] \<and> particles (startGame c s) = [] \<and>
   projectiles (startGame c s) = [] \<and> activePowerUps (startGame c s) = Map.empty \<and>
   \<not> isPhoenixMode (startGame c s) \<and> boss (startGame c s) = None \<and>
   gameState (startGame c s) = PLAYING \<and>
   highScore (startGame c s) = highScore s \<and> unlockedSkins (startGame c s) = unlockedSkins s \<and>
   challenges (startGame c s) = challenges s \<and> currentSkin (startGame c s) = currentSkin s \<and>
   gameState (run [Resize 1200 600] (initial 1200 800)) = START \<and>
   view_height (run [Resize 1200 600] (initial 1200 800)) = 600 \<and>
   gameState (run [Resize 1200 600, JumpKey] (initial 1200 800)) = PLAYING \<and>
   view_height (run [Resize 1200 600, JumpKey] (initial 1200 800)) = 600 \<and>
   playerY (run [Resize 1200 600, JumpKey] (initial 1200 800)) = 400 \<and>
   playerY (run [Resize 1200 600, Jump] (initial 1200 800)) = 300 \<and>
   playerY (run [Resize 1200 600, StartButton] (initial 1200 800)) = 300"
proof -
  have f: "score (startGame c s) = 0 \<and> playerY (startGame c s) = view_height c / 2 \<and>
   playerVelocity (startGame c s) = 0 \<and> obstacles (startGame c s) = [] \<and>
   powerUps (startGame c s) = [] \<and> particles (startGame c s) = [] \<and>
   projectiles (startGame c s) = [] \<and> activePowerUps (startGame c s) = Map.empty \<and>
   \<not> isPhoenixMode (startGame c s) \<and> boss (startGame c s) = None \<and>
   gameState (startGame c s) = PLAYING \<and>
   highScore (startGame c s) = highScore s \<and> unlockedSkins (startGame c s) = unlockedSkins s \<and>
   challenges (startGame c s) = challenges s \<and> currentSkin (startGame c s) = currentSkin s"
    by (simp add: startGame_def)
  define r where "r = (initial 1200 800)\<lparr>view_width := 1200, view_height := 600\<rparr>"
  have r1: "run [Resize 1200 600] (initial 1200 800) = r"
    unfolding run_Cons run_Nil resize_step r_def ..
  have rf: "gameState r = START" "view_height r = 600" "keydownHeight r = 800"
    by (simp_all add: r_def initial_def)
  have k: "handle JumpKey r = startGame (keydownRender r) r"
    by (simp add: handleJump_def keydownRender_def rf)
  have j: "handle Jump r = startGame r r"
    by (simp add: handleJump_def rf)
  have b: "handle StartButton r = startGame r r"
    by (simp add: rf)
  have 1: "gameState (run [Resize 1200 600, JumpKey] (initial 1200 800)) = PLAYING"
    "view_height (run [Resize 1200 600, JumpKey] (initial 1200 800)) = 600"
    "playerY (run [Resize 1200 600, JumpKey] (initial 1200 800)) = 400"
    unfolding run_Cons run_Nil resize_step r_def [symmetric] step_cells k
    by (simp_all add: startGame_def keydownRender_def rf)
  have 2: "playerY (run [Resize 1200 600, Jump] (initial 1200 800)) = 300"
    unfolding run_Cons run_Nil resize_step r_def [symmetric] step_cells j
    by (simp add: startGame_def rf)
  have 3: "playerY (run [Resize 1200 600, StartButton] (initial 1200 800)) = 300"
    unfolding run_Cons run_Nil resize_step r_def [symmetric] step_cells b
    by (simp add: startGame_def rf)
  have 0: "gameState (run [Resize 1200 600] (initial 1200 800)) = START"
    "view_height (run [Resize 1200 600] (initial 1200 800)) = 600"
    unfolding r1 by (simp_all add: rf)
  from f 0 1 2 3 show ?thesis
    by (intro conjI) simp_all
qed

end
